theory Spec2Isabelle
  imports Main "HOL-Library.Word"
begin

section \<open>The data model\<close>

text \<open>
  Go's \<^verbatim>\<open>int\<close> is a 64-bit two's complement integer on the platforms the tool is
  built for. It is modelled as a 64-bit word: \<open>+\<close> and \<open>-\<close> wrap around, \<open>sint\<close> reads the
  signed value, and the comparisons of the source are the signed ones (\<open>a <s b\<close>,
  \<open>a \<le>s b\<close>). Go strings are byte sequences, here \<open>string\<close> (a list of 8-bit characters),
  so \<open>length\<close> is Go's \<^verbatim>\<open>len\<close>.
\<close>

type_synonym go_int = "64 word"

text \<open>\<^verbatim>\<open>type Cell struct { X int; Y int; C string }\<close>\<close>

record Cell =
  X :: go_int
  Y :: go_int
  C :: string

text \<open>
  What \<^verbatim>\<open>goquery\<close> shows of the parsed HTML, as far as the program asks for it:
  \<^verbatim>\<open>doc.Find("table")\<close> is the list of the document's tables in document order,
  \<^verbatim>\<open>.Find("tr")\<close> on a table the list of its row elements, \<^verbatim>\<open>s.Find("td")\<close> on a row the
  list of its cell elements, and \<^verbatim>\<open>.Text()\<close> on a cell its text content. A row is therefore
  the list of the texts of its \<^verbatim>\<open>td\<close> elements.
\<close>

type_synonym Row = "string list"
type_synonym Table = "Row list"
type_synonym Document = "Table list"

text \<open>
  A run-time panic of the Go program: \<^verbatim>\<open>make\<close> with a length that is negative or
  too large for the runtime (\<^verbatim>\<open>makeslice: len out of range\<close>), and an index out of range.
\<close>

datatype panic = MakesliceLenOutOfRange | IndexOutOfRange

text \<open>
  What the process writes. A line of the \<^verbatim>\<open>log\<close> package is kept as its format string
  and arguments; the two debugging prints of \<^verbatim>\<open>main\<close> are kept with the value they print,
  and a line of the rendered grid as its text.
\<close>

datatype log_arg = StrArg string | IntArg go_int

datatype stderr_entry = Log string "log_arg list" | PanicTrace panic

datatype stdout_entry = PrintDocument Document | PrintCells "Cell list" | PrintLine string

record Process =
  stdout :: "stdout_entry list"
  stderr :: "stderr_entry list"
  exit_status :: nat

text \<open>The response of \<^verbatim>\<open>http.Get\<close>: its status code, and what parsing its body gives
  (\<open>Inl\<close> the error of \<^verbatim>\<open>goquery.NewDocumentFromReader\<close>).\<close>

record Response =
  StatusCode :: go_int
  Body :: "string + Document"

section \<open>The library functions the program calls\<close>

subsection \<open>\<^verbatim>\<open>strings.TrimSpace\<close>, \<^verbatim>\<open>strings.TrimRight\<close>, \<^verbatim>\<open>strings.Join\<close>\<close>

text \<open>
  \<^verbatim>\<open>strings.TrimSpace\<close> removes from both ends every code point with Unicode's White_Space
  property. On the bytes of a string these are the six ASCII characters
  \<^verbatim>\<open>\t \n \v \f \r\<close> and space, and the UTF-8 encodings of U+0085, U+00A0, U+1680,
  U+2000 to U+200A, U+2028, U+2029, U+202F, U+205F and U+3000. No encoding is a prefix or
  a suffix of another one, and an invalid byte decodes to U+FFFD, which is not white
  space, so trimming code points is removing these byte sequences from the two ends.
\<close>

definition whiteSpace :: "string list" where
  "whiteSpace =
     [[CHR 0x09], [CHR 0x0A], [CHR 0x0B], [CHR 0x0C], [CHR 0x0D], [CHR 0x20],
      [CHR 0xC2, CHR 0x85], [CHR 0xC2, CHR 0xA0], [CHR 0xE1, CHR 0x9A, CHR 0x80],
      [CHR 0xE2, CHR 0x80, CHR 0x80], [CHR 0xE2, CHR 0x80, CHR 0x81],
      [CHR 0xE2, CHR 0x80, CHR 0x82], [CHR 0xE2, CHR 0x80, CHR 0x83],
      [CHR 0xE2, CHR 0x80, CHR 0x84], [CHR 0xE2, CHR 0x80, CHR 0x85],
      [CHR 0xE2, CHR 0x80, CHR 0x86], [CHR 0xE2, CHR 0x80, CHR 0x87],
      [CHR 0xE2, CHR 0x80, CHR 0x88], [CHR 0xE2, CHR 0x80, CHR 0x89],
      [CHR 0xE2, CHR 0x80, CHR 0x8A], [CHR 0xE2, CHR 0x80, CHR 0xA8],
      [CHR 0xE2, CHR 0x80, CHR 0xA9], [CHR 0xE2, CHR 0x80, CHR 0xAF],
      [CHR 0xE2, CHR 0x81, CHR 0x9F], [CHR 0xE3, CHR 0x80, CHR 0x80]]"

function trimLeftRunes :: "string list \<Rightarrow> string \<Rightarrow> string" where
  "trimLeftRunes ws s =
     (case find (\<lambda>w. w \<noteq> [] \<and> take (length w) s = w) ws of
        None \<Rightarrow> s
      | Some w \<Rightarrow> trimLeftRunes ws (drop (length w) s))"
  by pat_completeness auto
termination
proof (relation "measure (\<lambda>(ws, s). length s)")
  show "wf (measure (\<lambda>(ws, s). length s))"
    by simp
next
  fix ws :: "string list" and s w :: string
  assume "find (\<lambda>w. w \<noteq> [] \<and> take (length w) s = w) ws = Some w"
  then have w: "w \<noteq> []" "take (length w) s = w"
    by (auto simp: find_Some_iff)
  then have "s \<noteq> []"
    by auto
  with w show "((ws, drop (length w) s), (ws, s)) \<in> measure (\<lambda>(ws, s). length s)"
    by simp
qed

definition TrimSpace :: "string \<Rightarrow> string" where
  "TrimSpace s = rev (trimLeftRunes (map rev whiteSpace) (rev (trimLeftRunes whiteSpace s)))"

text \<open>\<^verbatim>\<open>strings.TrimRight(s, cutset)\<close> for a cutset of ASCII characters, where Go works
  byte by byte from the end.\<close>

definition TrimRight :: "string \<Rightarrow> string \<Rightarrow> string" where
  "TrimRight s cutset = rev (dropWhile (\<lambda>c. c \<in> set cutset) (rev s))"

fun Join :: "string list \<Rightarrow> string \<Rightarrow> string" where
  "Join [] sep = []"
| "Join [e] sep = e"
| "Join (e # es) sep = e @ sep @ Join es sep"

subsection \<open>\<^verbatim>\<open>strconv.Atoi\<close>\<close>

text \<open>
  \<^verbatim>\<open>strconv.Atoi\<close> accepts an optional sign followed by one or more decimal digits and
  nothing else (base 10 given explicitly: no underscores), and fails with a range error
  when the value does not fit an \<^verbatim>\<open>int\<close>. The caller only tests the error against
  \<^verbatim>\<open>nil\<close>, so the error is \<open>None\<close>.
\<close>

definition isDigit :: "char \<Rightarrow> bool" where
  "isDigit c \<longleftrightarrow> 48 \<le> (of_char c :: nat) \<and> (of_char c :: nat) \<le> 57"

definition digits :: "string \<Rightarrow> int" where
  "digits s = foldl (\<lambda>n c. n * 10 + (int (of_char c) - 48)) 0 s"

definition Atoi :: "string \<Rightarrow> go_int option" where
  "Atoi s =
     (let neg = (s \<noteq> [] \<and> hd s = CHR ''-'');
          ds = (if s \<noteq> [] \<and> (hd s = CHR ''-'' \<or> hd s = CHR ''+'') then tl s else s)
      in if ds = [] \<or> \<not> list_all isDigit ds then None
         else let v = (if neg then - digits ds else digits ds)
              in if v < - (2 ^ 63) \<or> 2 ^ 63 - 1 < v then None else Some (word_of_int v))"

section \<open>The extractor\<close>

text \<open>
  \<^verbatim>\<open>Selection.Each(f)\<close> calls \<open>f\<close> on every element of the selection with its index. The
  callback of \<^verbatim>\<open>parseCharacterGridFromDoc\<close> appends to the slice \<^verbatim>\<open>cells\<close> it closes over
  and writes to the log: both are the state threaded through the calls.
\<close>

fun Each :: "(nat \<Rightarrow> 'a \<Rightarrow> 's \<Rightarrow> 's) \<Rightarrow> nat \<Rightarrow> 'a list \<Rightarrow> 's \<Rightarrow> 's" where
  "Each f i [] st = st"
| "Each f i (s # sel) st = Each f (Suc i) sel (f i s st)"

definition rowFunc ::
  "nat \<Rightarrow> Row \<Rightarrow> Cell list \<times> stderr_entry list \<Rightarrow> Cell list \<times> stderr_entry list" where
  "rowFunc i tds st =
     (if i = 0 then st
      else if length tds < 3 then st
      else
        let xStr = TrimSpace (tds ! 0);
            char = TrimSpace (tds ! 1);
            yStr = TrimSpace (tds ! 2)
        in case (Atoi xStr, Atoi yStr) of
             (Some x, Some y) \<Rightarrow> (fst st @ [\<lparr>X = x, Y = y, C = char\<rparr>], snd st)
           | _ \<Rightarrow>
               (fst st,
                snd st @ [Log (''Skipping invalid row: %v %v'' @ [CHR 0x0A]) [StrArg xStr, StrArg yStr]]))"

text \<open>\<^verbatim>\<open>doc.Find("table").First()\<close> is the first table, or the empty selection, whose
  \<^verbatim>\<open>Find("tr")\<close> is empty again.\<close>

definition First :: "Document \<Rightarrow> Table" where
  "First tables = (case tables of [] \<Rightarrow> [] | t # _ \<Rightarrow> t)"

definition parseCharacterGridFromDoc :: "Document \<Rightarrow> Cell list \<times> stderr_entry list" where
  "parseCharacterGridFromDoc doc = Each rowFunc 0 (First doc) ([], [])"

section \<open>The renderer\<close>

text \<open>The first loop of \<^verbatim>\<open>renderGridFromCells\<close>: the running maxima, from 0.\<close>

fun maxLoop :: "Cell list \<Rightarrow> go_int \<times> go_int \<Rightarrow> go_int \<times> go_int" where
  "maxLoop [] (maxX, maxY) = (maxX, maxY)"
| "maxLoop (c # cells) (maxX, maxY) =
     maxLoop cells (if maxX <s X c then X c else maxX, if maxY <s Y c then Y c else maxY)"

text \<open>
  \<^verbatim>\<open>make([]T, n)\<close> is \<^verbatim>\<open>runtime.makeslice\<close>: before it allocates anything it panics with
  \<^verbatim>\<open>len out of range\<close> when \<open>n\<close> is negative or the \<open>n\<close> elements take more than
  \<^verbatim>\<open>maxAlloc\<close> bytes, which is \<open>2 ^ 48\<close> on the 64-bit platforms with 48 heap address bits
  (linux/amd64 among them). A string header is 16 bytes and a slice header 24 bytes there,
  so a row holds at most \<open>2 ^ 44\<close> strings and the grid at most \<open>11728124029610\<close> rows.
  Otherwise the result is \<open>n\<close> zero values. Running out of memory below that bound ends
  the process in the allocator and is not modelled: an allocation that passes the check
  is taken to succeed.
\<close>

definition maxAlloc :: int where
  "maxAlloc = 2 ^ 48"

definition sizeofString :: int where
  "sizeofString = 16"

definition sizeofSlice :: int where
  "sizeofSlice = 24"

definition make :: "int \<Rightarrow> go_int \<Rightarrow> 'a \<Rightarrow> panic + 'a list" where
  "make elemSize n zero =
     (if n <s 0 \<or> maxAlloc < elemSize * sint n then Inl MakesliceLenOutOfRange
      else Inr (replicate (unat n) zero))"

text \<open>The loop over the rows of the new grid: each becomes a slice of \<open>maxX + 1\<close> strings,
  every one set to a blank.\<close>

fun fillRows :: "string list list \<Rightarrow> go_int \<Rightarrow> panic + string list list" where
  "fillRows [] maxX = Inr []"
| "fillRows (r # rs) maxX =
     (case make sizeofString (maxX + 1) ([] :: string) of
        Inl p \<Rightarrow> Inl p
      | Inr row \<Rightarrow>
          (case fillRows rs maxX of
             Inl p \<Rightarrow> Inl p
           | Inr rows \<Rightarrow> Inr (map (\<lambda>_. '' '') row # rows)))"

definition initGrid :: "go_int \<Rightarrow> go_int \<Rightarrow> panic + string list list" where
  "initGrid maxX maxY =
     (case make sizeofSlice (maxY + 1) ([] :: string list) of
        Inl p \<Rightarrow> Inl p
      | Inr grid \<Rightarrow> fillRows grid maxX)"

text \<open>\<^verbatim>\<open>grid[c.Y][c.X] = c.C\<close>, with Go's two bounds checks.\<close>

definition setCell :: "string list list \<Rightarrow> Cell \<Rightarrow> panic + string list list" where
  "setCell grid c =
     (if Y c <s 0 \<or> int (length grid) \<le> sint (Y c) then Inl IndexOutOfRange
      else
        let row = grid ! unat (Y c)
        in if X c <s 0 \<or> int (length row) \<le> sint (X c) then Inl IndexOutOfRange
           else Inr (grid[unat (Y c) := row[unat (X c) := C c]]))"

fun placeCells :: "string list list \<Rightarrow> Cell list \<Rightarrow> panic + string list list" where
  "placeCells grid [] = Inr grid"
| "placeCells grid (c # cells) =
     (case setCell grid c of Inl p \<Rightarrow> Inl p | Inr grid' \<Rightarrow> placeCells grid' cells)"

text \<open>
  The printing loop \<^verbatim>\<open>for i := maxY; i >= 0; i--\<close>. The lines printed so far are the
  accumulator; reading \<^verbatim>\<open>grid[i]\<close> is bounds-checked as in Go.
\<close>

function printRows ::
  "string list list \<Rightarrow> go_int \<Rightarrow> string list \<Rightarrow> string list \<times> panic option" where
  "printRows grid i out =
     (if 0 \<le>s i then
        (if int (length grid) \<le> sint i then (out, Some IndexOutOfRange)
         else printRows grid (i - 1) (out @ [TrimRight (Join (grid ! unat i) []) '' '']))
      else (out, None))"
  by pat_completeness auto
termination
proof (relation "measure (\<lambda>(grid, i, out). nat (sint i + 1))")
  show "wf (measure (\<lambda>(grid, i, out). nat (sint i + 1)))"
    by simp
next
  fix grid :: "string list list" and i :: go_int and out :: "string list"
  assume "0 \<le>s i"
  then have lo: "0 \<le> sint i"
    by (simp add: word_sle_eq)
  have hi: "sint i < 2 ^ 63"
    using sint_range_size [of i] by (simp add: word_size)
  have "sint (i - 1) = signed_take_bit 63 (sint i - 1)"
    by (simp add: sint_word_diff)
  also have "\<dots> = sint i - 1"
    using lo hi by (intro signed_take_bit_int_eq_self) simp_all
  finally have "sint (i - 1) = sint i - 1" .
  with lo
  show "((grid, i - 1, out @ [TrimRight (Join (grid ! unat i) []) '' '']), (grid, i, out))
          \<in> measure (\<lambda>(grid, i, out). nat (sint i + 1))"
    by simp
qed

definition renderGridFromCells :: "Cell list \<Rightarrow> string list \<times> panic option" where
  "renderGridFromCells cells =
     (let (maxX, maxY) = maxLoop cells (0, 0)
      in case initGrid maxX maxY of
           Inl p \<Rightarrow> ([], Some p)
         | Inr grid \<Rightarrow>
             (case placeCells grid cells of
                Inl p \<Rightarrow> ([], Some p)
              | Inr grid' \<Rightarrow> printRows grid' maxY []))"

section \<open>The program\<close>

text \<open>\<^verbatim>\<open>log.Fatal\<close> and \<^verbatim>\<open>log.Fatalf\<close>: the message on standard error, exit status 1.\<close>

definition Fatalf :: "stdout_entry list \<Rightarrow> stderr_entry list \<Rightarrow> string \<Rightarrow> log_arg list \<Rightarrow> Process" where
  "Fatalf printed logged fmt args =
     \<lparr>stdout = printed, stderr = logged @ [Log fmt args], exit_status = 1\<rparr>"

text \<open>\<^verbatim>\<open>main\<close> from the parsing of the response body on (the status check has passed).\<close>

definition mainParsed :: "string + Document \<Rightarrow> Process" where
  "mainParsed body =
     (case body of
        Inl err \<Rightarrow> Fatalf [] [] ''Failed to parse document HTML: %v'' [StrArg err]
      | Inr doc \<Rightarrow>
          let (cells, logged) = parseCharacterGridFromDoc doc;
              printed = [PrintDocument doc, PrintCells cells]
          in if length cells = 0 then Fatalf printed logged ''No valid table data found.'' []
             else
               (case renderGridFromCells cells of
                  (ls, None) \<Rightarrow>
                    \<lparr>stdout = printed @ map PrintLine ls, stderr = logged, exit_status = 0\<rparr>
                | (ls, Some p) \<Rightarrow>
                    \<lparr>stdout = printed @ map PrintLine ls, stderr = logged @ [PanicTrace p],
                     exit_status = 2\<rparr>))"

text \<open>
  \<^verbatim>\<open>main\<close>, given the command line \<^verbatim>\<open>os.Args\<close> (the program's name first) and what
  \<^verbatim>\<open>http.Get\<close> answers for a URL (\<open>Inl\<close> a transport error). The deferred
  \<^verbatim>\<open>resp.Body.Close()\<close> has no effect on what is written and is left out. The file
  \<^verbatim>\<open>main.go\<close> holds the same \<^verbatim>\<open>main\<close> up to the debugging print of the document; the
  model follows the longer one, which goes on to extract and render.
\<close>

definition main :: "string list \<Rightarrow> (string \<Rightarrow> string + Response) \<Rightarrow> Process" where
  "main Args Get =
     (if length Args < 2 then Fatalf [] [] ''Usage: go run main.go <public_google_doc_url>'' []
      else
        let url = Args ! 1
        in case Get url of
             Inl err \<Rightarrow> Fatalf [] [] ''Failed to fetch document: %v'' [StrArg err]
           | Inr resp \<Rightarrow>
               if StatusCode resp \<noteq> 200
               then Fatalf [] [] ''Failed to fetch document: HTTP %d'' [IntArg (StatusCode resp)]
               else mainParsed (Body resp))"

section \<open>The notions the properties are stated with\<close>

text \<open>The bounds \<^verbatim>\<open>maxX\<close> and \<^verbatim>\<open>maxY\<close> the renderer computes.\<close>

definition maxX :: "Cell list \<Rightarrow> go_int" where
  "maxX cells = fst (maxLoop cells (0, 0))"

definition maxY :: "Cell list \<Rightarrow> go_int" where
  "maxY cells = snd (maxLoop cells (0, 0))"

text \<open>
  The record that decides grid position \<open>(x, y)\<close>: the last one in list order with these
  coordinates, if any. \<open>shown\<close> is the string of that position (a blank when no record
  has it), \<open>rowCells\<close> the strings of the columns \<open>0\<close> to \<open>maxX\<close> of row \<open>y\<close>, and \<open>rowLine\<close>
  the line printed for that row.
\<close>

fun lastAt :: "Cell list \<Rightarrow> nat \<Rightarrow> nat \<Rightarrow> Cell option" where
  "lastAt [] x y = None"
| "lastAt (c # cells) x y =
     (case lastAt cells x y of
        Some c' \<Rightarrow> Some c'
      | None \<Rightarrow> if unat (X c) = x \<and> unat (Y c) = y then Some c else None)"

definition shown :: "Cell list \<Rightarrow> nat \<Rightarrow> nat \<Rightarrow> string" where
  "shown cells x y = (case lastAt cells x y of None \<Rightarrow> '' '' | Some c \<Rightarrow> C c)"

definition rowCells :: "Cell list \<Rightarrow> nat \<Rightarrow> string list" where
  "rowCells cells y = map (\<lambda>x. shown cells x y) [0..<Suc (unat (maxX cells))]"

definition rowLine :: "Cell list \<Rightarrow> nat \<Rightarrow> string" where
  "rowLine cells y = TrimRight (concat (rowCells cells y)) '' ''"

text \<open>
  The lists the renderer can render: every coordinate is non-negative, and the slices of
  \<open>maxX + 1\<close> strings and of \<open>maxY + 1\<close> rows pass the check of \<^verbatim>\<open>make\<close>, which is to say
  that every \<open>x\<close> is below \<open>2 ^ 44\<close> and every \<open>y\<close> below \<open>11728124029610\<close>.
\<close>

definition renderable :: "Cell list \<Rightarrow> bool" where
  "renderable cells =
     list_all (\<lambda>c. 0 \<le>s X c \<and> sizeofString * (sint (X c) + 1) \<le> maxAlloc \<and>
                   0 \<le>s Y c \<and> sizeofSlice * (sint (Y c) + 1) \<le> maxAlloc) cells"

text \<open>
  What the calls of \<^verbatim>\<open>fmt.Println\<close> write to standard output, each argument followed by
  a line feed, and the lines of a text: its pieces between the line feeds.
\<close>

definition stdoutText :: "string list \<Rightarrow> string" where
  "stdoutText ls = concat (map (\<lambda>l. l @ [CHR 0x0A]) ls)"

fun linesOf :: "string \<Rightarrow> string list" where
  "linesOf [] = []"
| "linesOf (c # cs) =
     (if c = CHR 0x0A then [] # linesOf cs
      else case linesOf cs of [] \<Rightarrow> [[c]] | l # ls \<Rightarrow> (c # l) # ls)"

text \<open>
  The extractor as section 4.1 of the specification words it, to compare the code with: a
  row needs at least three cells; cell 0 is the integer x-coordinate, cell 1 the payload
  and cell 2 the integer y-coordinate, each trimmed of white space; a row with too few
  cells or a coordinate that does not parse gives nothing. The records are those of the
  rows of the first table after its row 0, in order.
\<close>

definition rowCell :: "Row \<Rightarrow> Cell option" where
  "rowCell tds =
     (if length tds < 3 then None
      else case Atoi (TrimSpace (tds ! 0)) of
             None \<Rightarrow> None
           | Some x \<Rightarrow>
               (case Atoi (TrimSpace (tds ! 2)) of
                  None \<Rightarrow> None
                | Some y \<Rightarrow> Some \<lparr>X = x, Y = y, C = TrimSpace (tds ! 1)\<rparr>))"

definition extracted :: "Document \<Rightarrow> Cell list" where
  "extracted doc = (case doc of [] \<Rightarrow> [] | t # _ \<Rightarrow> List.map_filter rowCell (drop 1 t))"

text \<open>The display column at which the string of grid column \<open>x\<close> starts in the joined
  row \<open>y\<close>: the number of bytes of the strings to its left.\<close>

definition displayColumn :: "Cell list \<Rightarrow> nat \<Rightarrow> nat \<Rightarrow> nat" where
  "displayColumn cells x y = length (concat (take x (rowCells cells y)))"

text \<open>A server that answers every URL with \<open>r\<close>, and the 2xx range of status codes.\<close>

definition answers :: "string + Response \<Rightarrow> string \<Rightarrow> string + Response" where
  "answers r url = r"

definition is2xx :: "go_int \<Rightarrow> bool" where
  "is2xx code \<longleftrightarrow> 200 \<le>s code \<and> code <s 300"

section \<open>Machine integers\<close>

declare trimLeftRunes.simps [simp del]

declare printRows.simps [simp del]

lemma sint_go_int_range: "- (2 ^ 63) \<le> sint (w :: go_int) \<and> sint w < 2 ^ 63"
  using sint_range_size [of w] by (simp add: word_size)

lemma sint_succ: "sint (m :: go_int) < 2 ^ 63 - 1 \<Longrightarrow> sint (m + 1) = sint m + 1"
proof -
  assume hi: "sint m < 2 ^ 63 - 1"
  have lo: "- (2 ^ 63) \<le> sint m"
    using sint_go_int_range [of m] by simp
  have "sint (m + 1) = signed_take_bit 63 (sint m + 1)"
    by (simp add: sint_word_add)
  also have "\<dots> = sint m + 1"
    using lo hi by (intro signed_take_bit_int_eq_self) simp_all
  finally show ?thesis .
qed

lemma sint_succ_max: "sint (m :: go_int) = 2 ^ 63 - 1 \<Longrightarrow> sint (m + 1) < 0"
proof -
  assume a: "sint m = 2 ^ 63 - 1"
  have "m = word_of_int (sint m)" by simp
  then have "m = 9223372036854775807" unfolding a by simp
  then show ?thesis by simp
qed

lemma unat_nonneg: "0 \<le> sint (m :: go_int) \<Longrightarrow> unat m = nat (sint m)"
proof -
  assume a: "0 \<le> sint m"
  have b: "sint m < 2 ^ 63" using sint_go_int_range [of m] by simp
  have "uint m = take_bit 64 (sint m)"
    by (simp add: uint_sint)
  also have "\<dots> = sint m"
    using a b by (simp add: take_bit_int_eq_self)
  finally have "uint m = sint m" .
  then show ?thesis by (simp add: unat_eq_nat_uint)
qed

section \<open>The renderer, loop by loop\<close>

text \<open>The running maxima.\<close>

lemma maxLoop_ge_init:
  "sint mx \<le> sint (fst (maxLoop cells (mx, my))) \<and> sint my \<le> sint (snd (maxLoop cells (mx, my)))"
proof (induction cells arbitrary: mx my)
  case Nil
  show ?case by simp
next
  case (Cons c cells)
  let ?mx = "if mx <s X c then X c else mx" and ?my = "if my <s Y c then Y c else my"
  have "sint mx \<le> sint ?mx" "sint my \<le> sint ?my"
    by (simp_all add: word_sless_alt)
  with Cons.IH [of ?mx ?my] show ?case
    by simp
qed

lemma maxLoop_ge_cells:
  "c \<in> set cells \<Longrightarrow>
     sint (X c) \<le> sint (fst (maxLoop cells (mx, my))) \<and>
     sint (Y c) \<le> sint (snd (maxLoop cells (mx, my)))"
proof (induction cells arbitrary: mx my)
  case Nil
  then show ?case by simp
next
  case (Cons d cells)
  let ?mx = "if mx <s X d then X d else mx" and ?my = "if my <s Y d then Y d else my"
  show ?case
  proof (cases "c = d")
    case True
    have "sint (X d) \<le> sint ?mx" "sint (Y d) \<le> sint ?my"
      by (simp_all add: word_sless_alt)
    with maxLoop_ge_init [of ?mx cells ?my] True show ?thesis
      by simp
  next
    case False
    with Cons.prems have "c \<in> set cells" by simp
    from Cons.IH [OF this, of ?mx ?my] show ?thesis by simp
  qed
qed

lemma maxLoop_attained:
  "(fst (maxLoop cells (mx, my)) = mx \<or> fst (maxLoop cells (mx, my)) \<in> X ` set cells) \<and>
   (snd (maxLoop cells (mx, my)) = my \<or> snd (maxLoop cells (mx, my)) \<in> Y ` set cells)"
proof (induction cells arbitrary: mx my)
  case Nil
  show ?case by simp
next
  case (Cons d cells)
  let ?mx = "if mx <s X d then X d else mx" and ?my = "if my <s Y d then Y d else my"
  from Cons.IH [of ?mx ?my] show ?case
    by (auto split: if_splits)
qed

text \<open>Allocation.\<close>

lemma make_ok:
  "0 \<le> sint n \<Longrightarrow> elemSize * sint n \<le> maxAlloc \<Longrightarrow>
     make elemSize n z = Inr (replicate (nat (sint n)) z)"
  by (simp add: make_def word_sless_alt unat_nonneg)

lemma make_negative: "sint n < 0 \<Longrightarrow> make elemSize n z = Inl MakesliceLenOutOfRange"
  by (simp add: make_def word_sless_alt)

lemma make_too_long:
  "maxAlloc < elemSize * sint n \<Longrightarrow> make elemSize n z = Inl MakesliceLenOutOfRange"
  by (simp add: make_def)

lemma make_strings_ok:
  assumes "0 \<le> sint mx" "sint mx < 17592186044416"
  shows "make sizeofString (mx + 1) z = Inr (replicate (Suc (nat (sint mx))) z)"
proof -
  from assms have s: "sint (mx + 1) = sint mx + 1"
    by (intro sint_succ) simp
  from assms have "sizeofString * (sint mx + 1) \<le> maxAlloc"
    by (simp add: sizeofString_def maxAlloc_def)
  with assms(1) s show ?thesis
    using make_ok [of "mx + 1" sizeofString z] by (simp add: nat_add_distrib)
qed

lemma make_strings_panics:
  assumes "17592186044416 \<le> sint mx"
  shows "make sizeofString (mx + 1) z = Inl MakesliceLenOutOfRange"
proof (cases "sint mx = 2 ^ 63 - 1")
  case True
  then have "sint (mx + 1) < 0"
    by (rule sint_succ_max)
  then show ?thesis
    by (rule make_negative)
next
  case False
  with sint_go_int_range [of mx] have "sint mx < 2 ^ 63 - 1"
    by simp
  then have s: "sint (mx + 1) = sint mx + 1"
    by (intro sint_succ)
  from assms have "maxAlloc < sizeofString * (sint mx + 1)"
    by (simp add: sizeofString_def maxAlloc_def)
  with s show ?thesis
    using make_too_long [of sizeofString "mx + 1" z] by simp
qed

lemma make_rows_ok:
  assumes "0 \<le> sint my" "sint my < 11728124029610"
  shows "make sizeofSlice (my + 1) z = Inr (replicate (Suc (nat (sint my))) z)"
proof -
  from assms have s: "sint (my + 1) = sint my + 1"
    by (intro sint_succ) simp
  from assms have "sizeofSlice * (sint my + 1) \<le> maxAlloc"
    by (simp add: sizeofSlice_def maxAlloc_def)
  with assms(1) s show ?thesis
    using make_ok [of "my + 1" sizeofSlice z] by (simp add: nat_add_distrib)
qed

lemma make_rows_panics:
  assumes "11728124029610 \<le> sint my"
  shows "make sizeofSlice (my + 1) z = Inl MakesliceLenOutOfRange"
proof (cases "sint my = 2 ^ 63 - 1")
  case True
  then have "sint (my + 1) < 0"
    by (rule sint_succ_max)
  then show ?thesis
    by (rule make_negative)
next
  case False
  with sint_go_int_range [of my] have "sint my < 2 ^ 63 - 1"
    by simp
  then have s: "sint (my + 1) = sint my + 1"
    by (intro sint_succ)
  from assms have "maxAlloc < sizeofSlice * (sint my + 1)"
    by (simp add: sizeofSlice_def maxAlloc_def)
  with s show ?thesis
    using make_too_long [of sizeofSlice "my + 1" z] by simp
qed

lemma fillRows_ok:
  assumes "0 \<le> sint mx" "sint mx < 17592186044416"
  shows "fillRows rs mx = Inr (replicate (length rs) (replicate (Suc (nat (sint mx))) '' ''))"
proof -
  note m = make_strings_ok [OF assms, of "[] :: string"]
  show ?thesis
    by (induction rs) (simp_all add: m)
qed

lemma fillRows_overflow:
  assumes "17592186044416 \<le> sint mx" "rs \<noteq> []"
  shows "fillRows rs mx = Inl MakesliceLenOutOfRange"
  using make_strings_panics [OF assms(1), of "[] :: string"] assms(2) by (cases rs) simp_all

lemma initGrid_ok:
  assumes "0 \<le> sint mx" "sint mx < 17592186044416" "0 \<le> sint my" "sint my < 11728124029610"
  shows "initGrid mx my =
           Inr (replicate (Suc (nat (sint my))) (replicate (Suc (nat (sint mx))) '' ''))"
proof -
  have "make sizeofSlice (my + 1) ([] :: string list) = Inr (replicate (Suc (nat (sint my))) [])"
    using assms(3,4) by (rule make_rows_ok)
  then show ?thesis
    by (simp add: initGrid_def fillRows_ok [OF assms(1,2)] del: replicate.simps)
qed

lemma initGrid_overflow:
  assumes "0 \<le> sint mx" "0 \<le> sint my" "17592186044416 \<le> sint mx \<or> 11728124029610 \<le> sint my"
  shows "initGrid mx my = Inl MakesliceLenOutOfRange"
proof (cases "11728124029610 \<le> sint my")
  case True
  then show ?thesis
    by (simp add: initGrid_def make_rows_panics)
next
  case False
  with assms have mx: "17592186044416 \<le> sint mx" and my: "sint my < 11728124029610"
    by simp_all
  have "make sizeofSlice (my + 1) ([] :: string list) = Inr (replicate (Suc (nat (sint my))) [])"
    using assms(2) my by (rule make_rows_ok)
  with mx show ?thesis
    by (simp add: initGrid_def fillRows_overflow del: replicate.simps)
qed

text \<open>The writes.\<close>

lemma setCell_in_bounds:
  assumes "0 \<le> sint (Y c)" "nat (sint (Y c)) < length grid"
    and "0 \<le> sint (X c)" "nat (sint (X c)) < length (grid ! nat (sint (Y c)))"
  shows "setCell grid c =
           Inr (grid[nat (sint (Y c)) := (grid ! nat (sint (Y c)))[nat (sint (X c)) := C c]])"
proof -
  from assms have "\<not> int (length grid) \<le> sint (Y c)"
    "\<not> int (length (grid ! nat (sint (Y c)))) \<le> sint (X c)"
    by linarith+
  with assms show ?thesis
    by (simp add: setCell_def word_sless_alt unat_nonneg Let_def)
qed

lemma setCell_out_of_bounds:
  assumes "\<forall>r \<in> set grid. length r = w"
    and "sint (Y c) < 0 \<or> int (length grid) \<le> sint (Y c) \<or> sint (X c) < 0 \<or> int w \<le> sint (X c)"
  shows "setCell grid c = Inl IndexOutOfRange"
proof (cases "sint (Y c) < 0 \<or> int (length grid) \<le> sint (Y c)")
  case True
  then show ?thesis
    by (auto simp: setCell_def word_sless_alt)
next
  case False
  then have y: "0 \<le> sint (Y c)" "nat (sint (Y c)) < length grid"
    by auto
  then have "length (grid ! unat (Y c)) = w"
    using assms(1) by (simp add: unat_nonneg)
  with assms(2) False show ?thesis
    by (auto simp: setCell_def word_sless_alt Let_def)
qed

lemma setCell_rect:
  assumes "\<forall>r \<in> set grid. length r = w" "setCell grid c = Inr g"
  shows "length g = length grid \<and> (\<forall>r \<in> set g. length r = w)"
proof -
  from assms(2) have g: "g = grid[unat (Y c) := (grid ! unat (Y c))[unat (X c) := C c]]"
    and y: "\<not> int (length grid) \<le> sint (Y c)" "\<not> Y c <s 0"
    by (auto simp: setCell_def Let_def split: if_splits)
  from y have "0 \<le> sint (Y c)" "nat (sint (Y c)) < length grid"
    by (auto simp: word_sless_alt)
  then have "unat (Y c) < length grid"
    by (simp add: unat_nonneg)
  then have "length ((grid ! unat (Y c))[unat (X c) := C c]) = w"
    using assms(1) by simp
  moreover have "set g \<subseteq> insert ((grid ! unat (Y c))[unat (X c) := C c]) (set grid)"
    unfolding g by (rule set_update_subset_insert)
  ultimately show ?thesis
    using assms(1) g by auto
qed

lemma placeCells_ok:
  assumes "\<forall>r \<in> set grid. length r = w"
    and "\<forall>c \<in> set cs. 0 \<le> sint (Y c) \<and> sint (Y c) < int (length grid) \<and>
           0 \<le> sint (X c) \<and> sint (X c) < int w"
  shows "\<exists>g. placeCells grid cs = Inr g \<and> length g = length grid \<and>
           (\<forall>r \<in> set g. length r = w) \<and>
           (\<forall>y < length grid. \<forall>x < w.
              g ! y ! x = (case lastAt cs x y of None \<Rightarrow> grid ! y ! x | Some c \<Rightarrow> C c))"
  using assms
proof (induction cs arbitrary: grid)
  case Nil
  then show ?case by simp
next
  case (Cons c cs)
  let ?y = "nat (sint (Y c))" and ?x = "nat (sint (X c))"
  let ?g = "grid[?y := (grid ! ?y)[?x := C c]]"
  from Cons.prems(2) have c: "0 \<le> sint (Y c)" "?y < length grid" "0 \<le> sint (X c)" "?x < w"
    by auto
  with Cons.prems(1) have row: "length (grid ! ?y) = w"
    by simp
  with c have set: "setCell grid c = Inr ?g"
    by (simp add: setCell_in_bounds)
  from setCell_rect [OF Cons.prems(1) set]
  have rect: "length ?g = length grid" "\<forall>r \<in> set ?g. length r = w"
    by simp_all
  from Cons.prems(2) rect(1)
  have "\<forall>c \<in> set cs. 0 \<le> sint (Y c) \<and> sint (Y c) < int (length ?g) \<and>
          0 \<le> sint (X c) \<and> sint (X c) < int w"
    by simp
  from Cons.IH [OF rect(2) this] obtain g where g: "placeCells ?g cs = Inr g"
    "length g = length ?g" "\<forall>r \<in> set g. length r = w"
    "\<forall>y < length ?g. \<forall>x < w.
       g ! y ! x = (case lastAt cs x y of None \<Rightarrow> ?g ! y ! x | Some c \<Rightarrow> C c)"
    by blast
  have "g ! y ! x =
        (case lastAt (c # cs) x y of None \<Rightarrow> grid ! y ! x | Some c \<Rightarrow> C c)"
    if yx: "y < length grid" "x < w" for y x
  proof -
    from g(4) yx have "g ! y ! x = (case lastAt cs x y of None \<Rightarrow> ?g ! y ! x | Some c \<Rightarrow> C c)"
      by simp
    moreover have "?g ! y ! x = (if unat (X c) = x \<and> unat (Y c) = y then C c else grid ! y ! x)"
      using yx c row by (auto simp: unat_nonneg nth_list_update)
    ultimately show ?thesis
      by (simp split: option.splits)
  qed
  with g set show ?case
    by simp
qed

lemma placeCells_out_of_bounds:
  assumes "\<forall>r \<in> set grid. length r = w"
    and "\<exists>c \<in> set cs. sint (Y c) < 0 \<or> int (length grid) \<le> sint (Y c) \<or>
           sint (X c) < 0 \<or> int w \<le> sint (X c)"
  shows "placeCells grid cs = Inl IndexOutOfRange"
  using assms
proof (induction cs arbitrary: grid)
  case Nil
  then show ?case by simp
next
  case (Cons c cs)
  show ?case
  proof (cases "setCell grid c")
    case (Inl p)
    then have "p = IndexOutOfRange"
      by (auto simp: setCell_def Let_def split: if_splits)
    with Inl show ?thesis by simp
  next
    case (Inr g)
    from setCell_rect [OF Cons.prems(1) Inr]
    have rect: "length g = length grid" "\<forall>r \<in> set g. length r = w"
      by simp_all
    have "\<not> (sint (Y c) < 0 \<or> int (length grid) \<le> sint (Y c) \<or>
           sint (X c) < 0 \<or> int w \<le> sint (X c))"
      using setCell_out_of_bounds [OF Cons.prems(1), of c] Inr by auto
    with Cons.prems(2) rect(1)
    have "\<exists>c \<in> set cs. sint (Y c) < 0 \<or> int (length g) \<le> sint (Y c) \<or>
           sint (X c) < 0 \<or> int w \<le> sint (X c)"
      by auto
    from Cons.IH [OF rect(2) this] Inr show ?thesis
      by simp
  qed
qed

lemma sint_pred: "- (2 ^ 63) < sint (i :: go_int) \<Longrightarrow> sint (i - 1) = sint i - 1"
proof -
  assume lo: "- (2 ^ 63) < sint i"
  have hi: "sint i < 2 ^ 63"
    using sint_go_int_range [of i] by simp
  have "sint (i - 1) = signed_take_bit 63 (sint i - 1)"
    by (simp add: sint_word_diff)
  also have "\<dots> = sint i - 1"
    using lo hi by (intro signed_take_bit_int_eq_self) simp_all
  finally show ?thesis .
qed

text \<open>Printing.\<close>

lemma Join_empty_sep: "Join xs [] = concat xs"
  by (induction xs "[] :: string" rule: Join.induct) simp_all

lemma printRows_all:
  assumes "- 1 \<le> sint i" "sint i < int (length grid)"
  shows "printRows grid i out =
           (out @ map (\<lambda>k. TrimRight (concat (grid ! k)) '' '') (rev [0..<nat (sint i + 1)]), None)"
  using assms
proof (induction "nat (sint i + 1)" arbitrary: i out)
  case 0
  then have "sint i = - 1"
    by simp
  then have "\<not> 0 \<le>s i"
    by (simp add: word_sle_eq)
  with 0 show ?case
    by (subst printRows.simps) simp
next
  case (Suc n)
  then have i: "0 \<le> sint i" "nat (sint i) = n"
    by linarith+
  then have pred: "sint (i - 1) = sint i - 1"
    by (intro sint_pred) simp
  with Suc.hyps(2) i Suc.prems have "n = nat (sint (i - 1) + 1)" "- 1 \<le> sint (i - 1)"
    "sint (i - 1) < int (length grid)"
    by simp_all
  from Suc.hyps(1) [OF this]
  have "printRows grid (i - 1) (out @ [TrimRight (Join (grid ! unat i) []) '' '']) =
          ((out @ [TrimRight (Join (grid ! unat i) []) '' '']) @
             map (\<lambda>k. TrimRight (concat (grid ! k)) '' '') (rev [0..<nat (sint (i - 1) + 1)]), None)" .
  moreover have "0 \<le>s i" "\<not> int (length grid) \<le> sint i"
    using i Suc.prems by (simp_all add: word_sle_eq)
  moreover have "nat (sint i + 1) = Suc n" "nat (sint (i - 1) + 1) = n" "unat i = n"
    using i pred by (simp_all add: unat_nonneg)
  ultimately show ?case
    by (subst printRows.simps) (simp add: Join_empty_sep)
qed

text \<open>The renderer as a whole.\<close>

lemma maxXY_nonneg: "0 \<le> sint (maxX cells) \<and> 0 \<le> sint (maxY cells)"
  using maxLoop_ge_init [of 0 cells 0] by (simp add: maxX_def maxY_def)

lemma maxXY_ge: "c \<in> set cells \<Longrightarrow> sint (X c) \<le> sint (maxX cells) \<and> sint (Y c) \<le> sint (maxY cells)"
  using maxLoop_ge_cells [of c cells 0 0] by (simp add: maxX_def maxY_def)

lemma renderGridFromCells_ok:
  assumes nonneg: "\<forall>c \<in> set cells. 0 \<le> sint (X c) \<and> 0 \<le> sint (Y c)"
    and bound: "sint (maxX cells) < 17592186044416" "sint (maxY cells) < 11728124029610"
  shows "renderGridFromCells cells = (map (rowLine cells) (rev [0..<Suc (unat (maxY cells))]), None)"
proof -
  let ?w = "Suc (nat (sint (maxX cells)))" and ?h = "Suc (nat (sint (maxY cells)))"
  let ?grid = "replicate ?h (replicate ?w '' '')"
  have pos: "0 \<le> sint (maxX cells)" "0 \<le> sint (maxY cells)"
    using maxXY_nonneg [of cells] by simp_all
  have loop: "maxLoop cells (0, 0) = (maxX cells, maxY cells)"
    by (simp add: maxX_def maxY_def)
  have init: "initGrid (maxX cells) (maxY cells) = Inr ?grid"
    using pos bound by (intro initGrid_ok) simp_all
  have rect: "\<forall>r \<in> set ?grid. length r = ?w"
    by simp
  have "\<forall>c \<in> set cells. 0 \<le> sint (Y c) \<and> sint (Y c) < int (length ?grid) \<and>
          0 \<le> sint (X c) \<and> sint (X c) < int ?w"
    using nonneg maxXY_ge [of _ cells] pos by fastforce
  from placeCells_ok [OF rect this] obtain g where g: "placeCells ?grid cells = Inr g"
    "length g = ?h" "\<forall>r \<in> set g. length r = ?w"
    "\<forall>y < ?h. \<forall>x < ?w. g ! y ! x = (case lastAt cells x y of None \<Rightarrow> ?grid ! y ! x | Some c \<Rightarrow> C c)"
    by auto
  have row: "g ! y = rowCells cells y" if "y < ?h" for y
  proof (rule nth_equalityI)
    from that g(2,3) show len: "length (g ! y) = length (rowCells cells y)"
      using pos by (simp add: rowCells_def unat_nonneg)
    fix x assume "x < length (g ! y)"
    with that g(2,3) have x: "x < ?w"
      by simp
    with that g(4) have "g ! y ! x = (case lastAt cells x y of None \<Rightarrow> ?grid ! y ! x | Some c \<Rightarrow> C c)"
      by blast
    also have "\<dots> = shown cells x y"
      using that x by (simp add: shown_def del: replicate.simps split: option.splits)
    also have "\<dots> = rowCells cells y ! x"
      using x pos unfolding rowCells_def by (simp add: unat_nonneg del: upt_Suc)
    finally show "g ! y ! x = rowCells cells y ! x" .
  qed
  have "printRows g (maxY cells) [] =
          ([] @ map (\<lambda>k. TrimRight (concat (g ! k)) '' '') (rev [0..<nat (sint (maxY cells) + 1)]), None)"
    using pos g(2) by (intro printRows_all) simp_all
  also have "nat (sint (maxY cells) + 1) = ?h"
    using pos by simp
  also have "map (\<lambda>k. TrimRight (concat (g ! k)) '' '') (rev [0..<?h]) =
             map (rowLine cells) (rev [0..<?h])"
    by (rule map_cong) (simp_all add: row rowLine_def del: upt_Suc)
  finally have "printRows g (maxY cells) [] = (map (rowLine cells) (rev [0..<?h]), None)"
    by simp
  with loop init g(1) pos show ?thesis
    by (simp add: renderGridFromCells_def unat_nonneg del: replicate.simps upt_Suc)
qed

lemma renderGridFromCells_overflow:
  assumes "17592186044416 \<le> sint (maxX cells) \<or> 11728124029610 \<le> sint (maxY cells)"
  shows "renderGridFromCells cells = ([], Some MakesliceLenOutOfRange)"
proof -
  have pos: "0 \<le> sint (maxX cells)" "0 \<le> sint (maxY cells)"
    using maxXY_nonneg [of cells] by simp_all
  have loop: "maxLoop cells (0, 0) = (maxX cells, maxY cells)"
    by (simp add: maxX_def maxY_def)
  from initGrid_overflow [OF pos assms] loop show ?thesis
    by (simp add: renderGridFromCells_def)
qed

lemma renderGridFromCells_negative:
  assumes neg: "\<exists>c \<in> set cells. sint (X c) < 0 \<or> sint (Y c) < 0"
    and bound: "sint (maxX cells) < 17592186044416" "sint (maxY cells) < 11728124029610"
  shows "renderGridFromCells cells = ([], Some IndexOutOfRange)"
proof -
  let ?w = "Suc (nat (sint (maxX cells)))" and ?h = "Suc (nat (sint (maxY cells)))"
  let ?grid = "replicate ?h (replicate ?w '' '')"
  have pos: "0 \<le> sint (maxX cells)" "0 \<le> sint (maxY cells)"
    using maxXY_nonneg [of cells] by simp_all
  have loop: "maxLoop cells (0, 0) = (maxX cells, maxY cells)"
    by (simp add: maxX_def maxY_def)
  have init: "initGrid (maxX cells) (maxY cells) = Inr ?grid"
    using pos bound by (intro initGrid_ok) simp_all
  have rect: "\<forall>r \<in> set ?grid. length r = ?w"
    by simp
  from neg have "\<exists>c \<in> set cells. sint (Y c) < 0 \<or> int (length ?grid) \<le> sint (Y c) \<or>
           sint (X c) < 0 \<or> int ?w \<le> sint (X c)"
    by blast
  from placeCells_out_of_bounds [OF rect this] loop init show ?thesis
    by (simp add: renderGridFromCells_def del: replicate.simps)
qed

lemma maxX_reaches_iff:
  assumes "0 < b"
  shows "b \<le> sint (maxX cells) \<longleftrightarrow> (\<exists>c \<in> set cells. b \<le> sint (X c))"
proof
  assume a: "b \<le> sint (maxX cells)"
  from maxLoop_attained [of cells 0 0] have "maxX cells = 0 \<or> maxX cells \<in> X ` set cells"
    by (simp add: maxX_def)
  with a assms show "\<exists>c \<in> set cells. b \<le> sint (X c)"
    by auto
next
  assume "\<exists>c \<in> set cells. b \<le> sint (X c)"
  then obtain c where c: "c \<in> set cells" "b \<le> sint (X c)"
    by blast
  from maxXY_ge [OF c(1)] c(2) show "b \<le> sint (maxX cells)"
    by simp
qed

lemma maxY_reaches_iff:
  assumes "0 < b"
  shows "b \<le> sint (maxY cells) \<longleftrightarrow> (\<exists>c \<in> set cells. b \<le> sint (Y c))"
proof
  assume a: "b \<le> sint (maxY cells)"
  from maxLoop_attained [of cells 0 0] have "maxY cells = 0 \<or> maxY cells \<in> Y ` set cells"
    by (simp add: maxY_def)
  with a assms show "\<exists>c \<in> set cells. b \<le> sint (Y c)"
    by auto
next
  assume "\<exists>c \<in> set cells. b \<le> sint (Y c)"
  then obtain c where c: "c \<in> set cells" "b \<le> sint (Y c)"
    by blast
  from maxXY_ge [OF c(1)] c(2) show "b \<le> sint (maxY cells)"
    by simp
qed

lemma maxXY_bound_cases:
  "(sint (maxX cells) < 17592186044416 \<and> sint (maxY cells) < 11728124029610) \<or>
   (17592186044416 \<le> sint (maxX cells) \<or> 11728124029610 \<le> sint (maxY cells))"
  by linarith

section \<open>The renderer on every list\<close>

lemma renderable_iff:
  "renderable cells \<longleftrightarrow>
     (\<forall>c \<in> set cells. 0 \<le> sint (X c) \<and> sint (X c) < 17592186044416 \<and>
                       0 \<le> sint (Y c) \<and> sint (Y c) < 11728124029610)"
  by (auto simp: renderable_def list_all_iff word_sle_eq sizeofString_def sizeofSlice_def maxAlloc_def)

lemma renderable_bound:
  assumes "renderable cells"
  shows "sint (maxX cells) < 17592186044416 \<and> sint (maxY cells) < 11728124029610"
proof -
  from assms have "\<not> (\<exists>c \<in> set cells. 17592186044416 \<le> sint (X c))"
    "\<not> (\<exists>c \<in> set cells. 11728124029610 \<le> sint (Y c))"
    by (fastforce simp: renderable_iff)+
  then have "\<not> 17592186044416 \<le> sint (maxX cells)" "\<not> 11728124029610 \<le> sint (maxY cells)"
    using maxX_reaches_iff [of 17592186044416 cells] maxY_reaches_iff [of 11728124029610 cells]
    by simp_all
  then show ?thesis
    by simp
qed

lemma renderGridFromCells_renderable:
  assumes "renderable cells"
  shows "renderGridFromCells cells = (map (rowLine cells) (rev [0..<Suc (unat (maxY cells))]), None)"
proof -
  from assms have "\<forall>c \<in> set cells. 0 \<le> sint (X c) \<and> 0 \<le> sint (Y c)"
    by (simp add: renderable_iff)
  with renderable_bound [OF assms] show ?thesis
    by (intro renderGridFromCells_ok) simp_all
qed

lemma renderGridFromCells_not_renderable:
  assumes "\<not> renderable cells"
  shows "\<exists>p. renderGridFromCells cells = ([], Some p)"
proof -
  from maxXY_bound_cases [of cells] show ?thesis
  proof
    assume bound: "sint (maxX cells) < 17592186044416 \<and> sint (maxY cells) < 11728124029610"
    have "\<exists>c \<in> set cells. sint (X c) < 0 \<or> sint (Y c) < 0"
    proof (rule ccontr)
      assume "\<not> ?thesis"
      then have nonneg: "\<forall>c \<in> set cells. 0 \<le> sint (X c) \<and> 0 \<le> sint (Y c)"
        by auto
      have "renderable cells"
        unfolding renderable_iff
      proof
        fix c assume c: "c \<in> set cells"
        from maxXY_ge [OF c] bound nonneg c
        show "0 \<le> sint (X c) \<and> sint (X c) < 17592186044416 \<and> 0 \<le> sint (Y c) \<and> sint (Y c) < 11728124029610"
          by auto
      qed
      with assms show False ..
    qed
    with bound show ?thesis
      by (simp add: renderGridFromCells_negative)
  next
    assume "17592186044416 \<le> sint (maxX cells) \<or> 11728124029610 \<le> sint (maxY cells)"
    then show ?thesis
      by (simp add: renderGridFromCells_overflow)
  qed
qed

lemma maxX_eq_Max:
  assumes "cells \<noteq> []" "\<forall>c \<in> set cells. 0 \<le> sint (X c)"
  shows "sint (maxX cells) = Max (sint ` X ` set cells)"
proof (rule sym, rule Max_eqI)
  show "finite (sint ` X ` set cells)"
    by simp
  show "y \<le> sint (maxX cells)" if "y \<in> sint ` X ` set cells" for y
    using that maxXY_ge [of _ cells] by auto
  from maxLoop_attained [of cells 0 0] have "maxX cells = 0 \<or> maxX cells \<in> X ` set cells"
    by (simp add: maxX_def)
  then show "sint (maxX cells) \<in> sint ` X ` set cells"
  proof
    assume z: "maxX cells = 0"
    from assms(1) obtain c where c: "c \<in> set cells"
      by (cases cells) auto
    with maxXY_ge [OF c] assms(2) z have "sint (X c) = sint (maxX cells)"
      by auto
    with c show ?thesis
      by (metis imageI)
  qed auto
qed

lemma maxY_eq_Max:
  assumes "cells \<noteq> []" "\<forall>c \<in> set cells. 0 \<le> sint (Y c)"
  shows "sint (maxY cells) = Max (sint ` Y ` set cells)"
proof (rule sym, rule Max_eqI)
  show "finite (sint ` Y ` set cells)"
    by simp
  show "y \<le> sint (maxY cells)" if "y \<in> sint ` Y ` set cells" for y
    using that maxXY_ge [of _ cells] by auto
  from maxLoop_attained [of cells 0 0] have "maxY cells = 0 \<or> maxY cells \<in> Y ` set cells"
    by (simp add: maxY_def)
  then show "sint (maxY cells) \<in> sint ` Y ` set cells"
  proof
    assume z: "maxY cells = 0"
    from assms(1) obtain c where c: "c \<in> set cells"
      by (cases cells) auto
    with maxXY_ge [OF c] assms(2) z have "sint (Y c) = sint (maxY cells)"
      by auto
    with c show ?thesis
      by (metis imageI)
  qed auto
qed

text \<open>The strings of the grid and the width of a line.\<close>

lemma lastAt_Some:
  "lastAt cells x y = Some c \<Longrightarrow> c \<in> set cells \<and> unat (X c) = x \<and> unat (Y c) = y"
  by (induction cells) (auto split: option.splits if_splits)

lemma length_TrimRight: "length (TrimRight s cutset) \<le> length s"
  using length_dropWhile_le [of _ "rev s"] by (simp add: TrimRight_def)

lemma length_concat_short:
  "\<forall>s \<in> set xs. length s \<le> 1 \<Longrightarrow> length (concat xs) \<le> length xs"
  by (induction xs) auto

lemma length_rowLine:
  assumes "\<forall>c \<in> set cells. length (C c) \<le> 1"
  shows "length (rowLine cells y) \<le> Suc (unat (maxX cells))"
proof -
  have "length (shown cells x y) \<le> 1" for x
    using assms lastAt_Some [of cells x y] by (auto simp: shown_def split: option.splits)
  then have "\<forall>s \<in> set (rowCells cells y). length s \<le> 1"
    by (auto simp: rowCells_def)
  then have "length (concat (rowCells cells y)) \<le> length (rowCells cells y)"
    by (rule length_concat_short)
  also have "\<dots> = Suc (unat (maxX cells))"
    by (simp add: rowCells_def)
  finally show ?thesis
    using length_TrimRight [of "concat (rowCells cells y)" "'' ''"] by (simp add: rowLine_def)
qed

lemma rev_upt_nth: "k < h \<Longrightarrow> rev [0..<h] ! k = h - Suc k"
  by (simp add: rev_nth)

lemma renderGridFromCells_cases:
  assumes "renderGridFromCells cells = (ls, p)"
  shows "(renderable cells \<and> p = None \<and>
            ls = map (rowLine cells) (rev [0..<Suc (unat (maxY cells))])) \<or>
         (\<not> renderable cells \<and> p \<noteq> None \<and> ls = [])"
proof (cases "renderable cells")
  case True
  from renderGridFromCells_renderable [OF True] assms True show ?thesis
    by simp
next
  case False
  from renderGridFromCells_not_renderable [OF False] assms False show ?thesis
    by auto
qed

lemma largest_Y_is_maxY:
  assumes "renderable cells" "c \<in> set cells" "\<forall>d \<in> set cells. Y d \<le>s Y c"
  shows "unat (Y c) = unat (maxY cells)"
proof -
  from assms(1,2) have c: "0 \<le> sint (Y c)"
    by (simp add: renderable_iff)
  from maxLoop_attained [of cells 0 0] have "maxY cells = 0 \<or> maxY cells \<in> Y ` set cells"
    by (simp add: maxY_def)
  with c assms(3) have "sint (maxY cells) \<le> sint (Y c)"
    by (auto simp: word_sle_eq)
  with maxXY_ge [OF assms(2)] have "sint (Y c) = sint (maxY cells)"
    by simp
  with c show ?thesis
    by (simp add: unat_nonneg)
qed

text \<open>The lines of what is printed.\<close>

lemma linesOf_line:
  "CHR 0x0A \<notin> set l \<Longrightarrow> linesOf (l @ CHR 0x0A # rest) = l # linesOf rest"
  by (induction l) auto

lemma linesOf_stdoutText:
  "\<forall>l \<in> set ls. CHR 0x0A \<notin> set l \<Longrightarrow> linesOf (stdoutText ls) = ls"
proof (induction ls)
  case Nil
  show ?case
    by (simp add: stdoutText_def)
next
  case (Cons l ls)
  then have "linesOf (stdoutText ls) = ls" "CHR 0x0A \<notin> set l"
    by simp_all
  then show ?case
    using linesOf_line [of l "stdoutText ls"] by (simp add: stdoutText_def)
qed

lemma set_TrimRight: "set (TrimRight s cutset) \<subseteq> set s"
  using set_dropWhileD [of _ _ "rev s"] by (auto simp: TrimRight_def)

lemma rowLine_no_line_feed:
  assumes "\<forall>c \<in> set cells. CHR 0x0A \<notin> set (C c)"
  shows "CHR 0x0A \<notin> set (rowLine cells y)"
proof -
  have "CHR 0x0A \<notin> set (shown cells x y)" for x
    using assms lastAt_Some [of cells x y] by (auto simp: shown_def split: option.splits)
  then have "CHR 0x0A \<notin> set (concat (rowCells cells y))"
    by (auto simp: rowCells_def)
  with set_TrimRight [of "concat (rowCells cells y)" "'' ''"] show ?thesis
    by (auto simp: rowLine_def)
qed

section \<open>Records that share a coordinate\<close>

lemma lastAt_append:
  "lastAt (xs @ ys) x y = (case lastAt ys x y of Some c \<Rightarrow> Some c | None \<Rightarrow> lastAt xs x y)"
  by (induction xs) (auto split: option.splits)

lemma lastAt_None_iff:
  "lastAt cells x y = None \<longleftrightarrow> (\<forall>c \<in> set cells. \<not> (unat (X c) = x \<and> unat (Y c) = y))"
  by (induction cells) (auto split: option.splits)

lemma lastAt_last_record:
  assumes "\<forall>d \<in> set post. \<not> (X d = X c \<and> Y d = Y c)"
  shows "lastAt (pre @ c # post) (unat (X c)) (unat (Y c)) = Some c"
proof -
  from assms have "lastAt post (unat (X c)) (unat (Y c)) = None"
    by (auto simp: lastAt_None_iff word_unat_eq_iff)
  then show ?thesis
    by (simp add: lastAt_append)
qed

lemma lastAt_drop_earlier:
  assumes "X c1 = X c2" "Y c1 = Y c2"
  shows "lastAt (pre @ c1 # mid @ c2 # post) x y = lastAt (pre @ mid @ c2 # post) x y"
proof (cases "lastAt (mid @ c2 # post) x y")
  case None
  then have "\<not> (unat (X c2) = x \<and> unat (Y c2) = y)"
    by (simp add: lastAt_None_iff)
  with assms None have "lastAt (c1 # mid @ c2 # post) x y = None"
    by auto
  with None show ?thesis
    using lastAt_append [of pre "c1 # mid @ c2 # post" x y]
      lastAt_append [of pre "mid @ c2 # post" x y] by simp
next
  case (Some c)
  then have "lastAt (c1 # mid @ c2 # post) x y = Some c"
    by simp
  with Some show ?thesis
    using lastAt_append [of pre "c1 # mid @ c2 # post" x y]
      lastAt_append [of pre "mid @ c2 # post" x y] by simp
qed

lemma maxX_Max0: "sint (maxX cells) = Max (insert 0 (sint ` X ` set cells))"
proof (rule sym, rule Max_eqI)
  show "finite (insert 0 (sint ` X ` set cells))"
    by simp
  show "v \<le> sint (maxX cells)" if "v \<in> insert 0 (sint ` X ` set cells)" for v
    using that maxXY_ge [of _ cells] maxXY_nonneg [of cells] by auto
  from maxLoop_attained [of cells 0 0] have "maxX cells = 0 \<or> maxX cells \<in> X ` set cells"
    by (simp add: maxX_def)
  then show "sint (maxX cells) \<in> insert 0 (sint ` X ` set cells)"
    by auto
qed

lemma maxY_Max0: "sint (maxY cells) = Max (insert 0 (sint ` Y ` set cells))"
proof (rule sym, rule Max_eqI)
  show "finite (insert 0 (sint ` Y ` set cells))"
    by simp
  show "v \<le> sint (maxY cells)" if "v \<in> insert 0 (sint ` Y ` set cells)" for v
    using that maxXY_ge [of _ cells] maxXY_nonneg [of cells] by auto
  from maxLoop_attained [of cells 0 0] have "maxY cells = 0 \<or> maxY cells \<in> Y ` set cells"
    by (simp add: maxY_def)
  then show "sint (maxY cells) \<in> insert 0 (sint ` Y ` set cells)"
    by auto
qed

lemma maxXY_cong:
  assumes "X ` set cells = X ` set cells'" "Y ` set cells = Y ` set cells'"
  shows "maxX cells = maxX cells' \<and> maxY cells = maxY cells'"
proof -
  have "sint (maxX cells) = sint (maxX cells')" "sint (maxY cells) = sint (maxY cells')"
    using assms by (simp_all add: maxX_Max0 maxY_Max0)
  then show ?thesis
    by (simp add: signed_word_eqI)
qed

lemma renderGridFromCells_drop_earlier:
  assumes "X c1 = X c2" "Y c1 = Y c2"
  shows "renderGridFromCells (pre @ c1 # mid @ c2 # post) =
         renderGridFromCells (pre @ mid @ c2 # post)"
proof -
  let ?l = "pre @ c1 # mid @ c2 # post" and ?r = "pre @ mid @ c2 # post"
  have sets: "X ` set ?l = X ` set ?r" "Y ` set ?l = Y ` set ?r"
    using assms by auto
  from maxXY_cong [OF sets] have mx: "maxX ?l = maxX ?r" and my: "maxY ?l = maxY ?r"
    by simp_all
  have rd: "renderable ?l \<longleftrightarrow> renderable ?r"
    using assms by (auto simp: renderable_iff)
  show ?thesis
  proof (cases "renderable ?l")
    case True
    have "shown ?l x y = shown ?r x y" for x y
      by (simp add: shown_def lastAt_drop_earlier [OF assms])
    then have "rowLine ?l = rowLine ?r"
      by (simp add: rowLine_def rowCells_def mx fun_eq_iff)
    with True rd my show ?thesis
      by (simp add: renderGridFromCells_renderable)
  next
    case False
    from maxXY_bound_cases [of ?l] show ?thesis
    proof
      assume b: "sint (maxX ?l) < 17592186044416 \<and> sint (maxY ?l) < 11728124029610"
      have neg: "\<exists>c \<in> set cells. sint (X c) < 0 \<or> sint (Y c) < 0"
        if "\<not> renderable cells"
          "sint (maxX cells) < 17592186044416 \<and> sint (maxY cells) < 11728124029610" for cells
      proof (rule ccontr)
        assume "\<not> ?thesis"
        then have "\<forall>c \<in> set cells. 0 \<le> sint (X c) \<and> 0 \<le> sint (Y c)"
          by auto
        with that(2) have "renderGridFromCells cells =
            (map (rowLine cells) (rev [0..<Suc (unat (maxY cells))]), None)"
          by (intro renderGridFromCells_ok) simp_all
        with renderGridFromCells_not_renderable [OF that(1)] show False
          by simp
      qed
      from neg [OF False b] b have "renderGridFromCells ?l = ([], Some IndexOutOfRange)"
        by (intro renderGridFromCells_negative) simp_all
      moreover from False rd b mx my
      have "\<not> renderable ?r" "sint (maxX ?r) < 17592186044416 \<and> sint (maxY ?r) < 11728124029610"
        by simp_all
      from neg [OF this] this(2) have "renderGridFromCells ?r = ([], Some IndexOutOfRange)"
        by (intro renderGridFromCells_negative) simp_all
      ultimately show ?thesis
        by simp
    next
      assume o: "17592186044416 \<le> sint (maxX ?l) \<or> 11728124029610 \<le> sint (maxY ?l)"
      then have "17592186044416 \<le> sint (maxX ?r) \<or> 11728124029610 \<le> sint (maxY ?r)"
        using mx my by simp
      with o show ?thesis
        by (simp add: renderGridFromCells_overflow)
    qed
  qed
qed

lemma printed_row_of_record:
  assumes "renderGridFromCells cells = (ls, None)" "c \<in> set cells"
  shows "unat (X c) < length (rowCells cells (unat (Y c))) \<and>
         unat (maxY cells) - unat (Y c) < length ls \<and>
         ls ! (unat (maxY cells) - unat (Y c)) = rowLine cells (unat (Y c))"
proof -
  from renderGridFromCells_cases [OF assms(1)]
  have r: "renderable cells" and ls: "ls = map (rowLine cells) (rev [0..<Suc (unat (maxY cells))])"
    by simp_all
  from r assms(2) have c: "0 \<le> sint (X c)" "0 \<le> sint (Y c)"
    by (simp_all add: renderable_iff)
  from maxXY_ge [OF assms(2)] c
  have "nat (sint (X c)) \<le> nat (sint (maxX cells))" "nat (sint (Y c)) \<le> nat (sint (maxY cells))"
    by linarith+
  with c maxXY_nonneg [of cells]
  have le: "unat (X c) \<le> unat (maxX cells)" "unat (Y c) \<le> unat (maxY cells)"
    by (simp_all add: unat_nonneg)
  then show ?thesis
    unfolding ls by (simp add: rowCells_def rev_nth del: upt_Suc)
qed

lemma concat_split_at:
  "i < length xs \<Longrightarrow> concat xs = concat (take i xs) @ xs ! i @ concat (drop (Suc i) xs)"
  using id_take_nth_drop [of i xs] by (metis concat.simps(2) concat_append)

section \<open>The extractor, row by row\<close>

lemma rowFunc_0: "rowFunc 0 tds st = st"
  by (simp add: rowFunc_def)

lemma fst_rowFunc_Suc:
  "fst (rowFunc (Suc i) tds st) = fst st @ (case rowCell tds of None \<Rightarrow> [] | Some c \<Rightarrow> [c])"
  by (simp add: rowFunc_def rowCell_def Let_def split: option.splits)

lemma fst_Each_rowFunc:
  "fst (Each rowFunc (Suc i) rows st) = fst st @ List.map_filter rowCell rows"
proof (induction rows arbitrary: i st)
  case Nil
  show ?case
    by (simp add: map_filter_simps)
next
  case (Cons r rows)
  show ?case
    by (simp add: Cons.IH fst_rowFunc_Suc map_filter_simps split: option.splits)
qed

lemma fst_parse_table:
  "fst (parseCharacterGridFromDoc ((h # rows) # ts)) = List.map_filter rowCell rows"
  by (simp add: parseCharacterGridFromDoc_def First_def rowFunc_0 fst_Each_rowFunc)

lemma fst_parse_extracted: "fst (parseCharacterGridFromDoc doc) = extracted doc"
proof (cases doc)
  case Nil
  then show ?thesis
    by (simp add: parseCharacterGridFromDoc_def First_def extracted_def)
next
  case (Cons t ts)
  show ?thesis
  proof (cases t)
    case Nil
    with Cons show ?thesis
      by (simp add: parseCharacterGridFromDoc_def First_def extracted_def map_filter_simps)
  next
    case (Cons h rows)
    with \<open>doc = t # ts\<close> show ?thesis
      by (simp add: fst_parse_table extracted_def)
  qed
qed

lemma map_filter_split:
  "List.map_filter f (pre @ r # post) =
     List.map_filter f pre @ (case f r of None \<Rightarrow> [] | Some c \<Rightarrow> [c]) @ List.map_filter f post"
  by (simp add: List.map_filter_def split: option.splits)

section \<open>What the program writes\<close>

lemma snd_rowFunc:
  "e \<in> set (snd (rowFunc i tds st)) \<Longrightarrow>
     e \<in> set (snd st) \<or> (\<exists>a b. e = Log (''Skipping invalid row: %v %v'' @ [CHR 0x0A]) [StrArg a, StrArg b])"
  by (auto simp: rowFunc_def Let_def split: if_splits option.splits)

lemma snd_Each_rowFunc:
  "e \<in> set (snd (Each rowFunc i rows st)) \<Longrightarrow>
     e \<in> set (snd st) \<or> (\<exists>a b. e = Log (''Skipping invalid row: %v %v'' @ [CHR 0x0A]) [StrArg a, StrArg b])"
proof (induction rows arbitrary: i st)
  case Nil
  then show ?case by simp
next
  case (Cons r rows)
  from Cons.IH [of "Suc i" "rowFunc i r st"] Cons.prems snd_rowFunc [of e i r st]
  show ?case
    by auto
qed

lemma parse_log_entries:
  "e \<in> set (snd (parseCharacterGridFromDoc doc)) \<Longrightarrow>
     \<exists>a b. e = Log (''Skipping invalid row: %v %v'' @ [CHR 0x0A]) [StrArg a, StrArg b]"
  using snd_Each_rowFunc [of e 0 "First doc" "([], [])"] by (simp add: parseCharacterGridFromDoc_def)

lemma mainParsed_no_fetch_error:
  "Log ''Failed to fetch document: HTTP %d'' args \<notin> set (stderr (mainParsed body))"
proof (cases body)
  case (Inl err)
  then show ?thesis
    by (simp add: mainParsed_def Fatalf_def)
next
  case (Inr doc)
  obtain cells logged where p: "parseCharacterGridFromDoc doc = (cells, logged)"
    by (cases "parseCharacterGridFromDoc doc")
  have "Log ''Failed to fetch document: HTTP %d'' args \<notin> set logged"
    using parse_log_entries [of "Log ''Failed to fetch document: HTTP %d'' args" doc] p by auto
  with Inr p show ?thesis
    by (auto simp: mainParsed_def Fatalf_def Let_def split: prod.splits option.splits)
qed

section \<open>Payloads of any length\<close>

lemma displayColumn_0: "displayColumn cells 0 y = 0"
  by (simp add: displayColumn_def)

lemma displayColumn_Suc:
  assumes "x \<le> unat (maxX cells)"
  shows "displayColumn cells (Suc x) y = displayColumn cells x y + length (shown cells x y)"
proof -
  from assms have x: "x < length (rowCells cells y)"
    by (simp add: rowCells_def)
  then have "rowCells cells y ! x = shown cells x y"
    by (simp add: rowCells_def del: upt_Suc)
  with x show ?thesis
    by (simp add: displayColumn_def take_Suc_conv_app_nth)
qed

lemma displayColumn_sum:
  "x \<le> Suc (unat (maxX cells)) \<Longrightarrow>
     displayColumn cells x y = (\<Sum>i<x. length (shown cells i y))"
  by (induction x) (simp_all add: displayColumn_0 displayColumn_Suc)

lemma displayColumn_aligned_iff:
  assumes "x \<le> Suc (unat (maxX cells))"
  shows "(\<forall>x' \<le> x. displayColumn cells x' y = x') \<longleftrightarrow> (\<forall>i < x. length (shown cells i y) = 1)"
proof
  assume a: "\<forall>x' \<le> x. displayColumn cells x' y = x'"
  show "\<forall>i < x. length (shown cells i y) = 1"
  proof (intro allI impI)
    fix i assume i: "i < x"
    with assms have "displayColumn cells (Suc i) y = displayColumn cells i y + length (shown cells i y)"
      by (intro displayColumn_Suc) simp
    moreover from a i have "displayColumn cells (Suc i) y = Suc i" "displayColumn cells i y = i"
      by simp_all
    ultimately show "length (shown cells i y) = 1"
      by simp
  qed
next
  assume a: "\<forall>i < x. length (shown cells i y) = 1"
  show "\<forall>x' \<le> x. displayColumn cells x' y = x'"
  proof (intro allI impI)
    fix x' assume "x' \<le> x"
    with assms a show "displayColumn cells x' y = x'"
      by (simp add: displayColumn_sum)
  qed
qed

section \<open>The properties\<close>

subsection \<open>The number and the width of the printed lines\<close>

text \<open>
  Claim C1, as amended. For every non-empty list of records on which the renderer does not
  panic and whose payloads hold no line feed, it has written exactly \<open>maxY + 1\<close> lines to
  standard output, where \<open>maxX\<close> and \<open>maxY\<close> are the maxima of the records' coordinates;
  and when every payload is at most one byte long, each of these lines (they are written
  with their trailing blanks trimmed) has at most \<open>maxX + 1\<close> bytes. The renderer does not
  panic only on a renderable list: all coordinates non-negative, every \<open>x\<close> below \<open>2 ^ 44\<close>
  and every \<open>y\<close> below \<open>11728124029610\<close>.
\<close>

theorem C1_line_count_and_width:
  assumes "cells \<noteq> []" and "renderGridFromCells cells = (ls, None)"
    and "\<forall>c \<in> set cells. CHR 0x0A \<notin> set (C c)"
  shows "renderable cells \<and>
         sint (maxX cells) = Max (sint ` X ` set cells) \<and>
         sint (maxY cells) = Max (sint ` Y ` set cells) \<and>
         linesOf (stdoutText ls) = ls \<and>
         int (length (linesOf (stdoutText ls))) = Max (sint ` Y ` set cells) + 1 \<and>
         ((\<forall>c \<in> set cells. length (C c) \<le> 1) \<longrightarrow>
            (\<forall>l \<in> set (linesOf (stdoutText ls)). int (length l) \<le> Max (sint ` X ` set cells) + 1))"
proof -
  from renderGridFromCells_cases [OF assms(2)]
  have r: "renderable cells"
    and ls: "ls = map (rowLine cells) (rev [0..<Suc (unat (maxY cells))])"
    by simp_all
  from r have nonneg: "\<forall>c \<in> set cells. 0 \<le> sint (X c)" "\<forall>c \<in> set cells. 0 \<le> sint (Y c)"
    by (simp_all add: renderable_iff)
  have mx: "sint (maxX cells) = Max (sint ` X ` set cells)"
    using assms(1) nonneg(1) by (rule maxX_eq_Max)
  have my: "sint (maxY cells) = Max (sint ` Y ` set cells)"
    using assms(1) nonneg(2) by (rule maxY_eq_Max)
  have pos: "0 \<le> sint (maxX cells)" "0 \<le> sint (maxY cells)"
    using maxXY_nonneg [of cells] by simp_all
  have "\<forall>l \<in> set ls. CHR 0x0A \<notin> set l"
    unfolding ls using rowLine_no_line_feed [OF assms(3)] by auto
  then have lines: "linesOf (stdoutText ls) = ls"
    by (rule linesOf_stdoutText)
  have count: "int (length (linesOf (stdoutText ls))) = Max (sint ` Y ` set cells) + 1"
    unfolding lines using pos my by (simp add: ls unat_nonneg)
  have "\<forall>l \<in> set (linesOf (stdoutText ls)). int (length l) \<le> Max (sint ` X ` set cells) + 1"
    if short: "\<forall>c \<in> set cells. length (C c) \<le> 1"
    unfolding lines
  proof
    fix l assume "l \<in> set ls"
    then obtain y where "l = rowLine cells y"
      unfolding ls by auto
    with length_rowLine [OF short, of y] have "length l \<le> Suc (unat (maxX cells))"
      by simp
    with pos mx show "int (length l) \<le> Max (sint ` X ` set cells) + 1"
      by (simp add: unat_nonneg)
  qed
  with r mx my lines count show ?thesis
    by blast
qed

theorem C1_line_count_and_width_witness:
  "renderGridFromCells [\<lparr>X = 0, Y = 1, C = ''A''\<rparr>, \<lparr>X = 2, Y = 0, C = ''B''\<rparr>] = ([''A'', ''  B''], None) \<and>
   renderable [\<lparr>X = 0, Y = 1, C = ''A''\<rparr>, \<lparr>X = 2, Y = 0, C = ''B''\<rparr>] \<and>
   sint (maxX [\<lparr>X = 0, Y = 1, C = ''A''\<rparr>, \<lparr>X = 2, Y = 0, C = ''B''\<rparr>]) = 2 \<and>
   sint (maxY [\<lparr>X = 0, Y = 1, C = ''A''\<rparr>, \<lparr>X = 2, Y = 0, C = ''B''\<rparr>]) = 1 \<and>
   linesOf (stdoutText [''A'', ''  B'']) = [''A'', ''  B''] \<and>
   int (length (linesOf (stdoutText [''A'', ''  B'']))) = 1 + 1 \<and>
   int (length ''A'') \<le> 2 + 1 \<and> int (length ''  B'') \<le> 2 + 1"
proof -
  let ?cells = "[\<lparr>X = 0, Y = 1, C = ''A''\<rparr>, \<lparr>X = 2, Y = 0, C = ''B''\<rparr>]"
  let ?ls = "[''A'', ''  B'']"
  have ne: "?cells \<noteq> []"
    by simp
  have run: "renderGridFromCells ?cells = (?ls, None)"
    by code_simp
  have nolf: "\<forall>c \<in> set ?cells. CHR 0x0A \<notin> set (C c)"
    by simp
  have short: "\<forall>c \<in> set ?cells. length (C c) \<le> 1"
    by simp
  have mx: "Max (sint ` X ` set ?cells) = 2" and my: "Max (sint ` Y ` set ?cells) = 1"
    by simp_all
  from C1_line_count_and_width [OF ne run nolf]
  have r: "renderable ?cells"
    and m: "sint (maxX ?cells) = Max (sint ` X ` set ?cells)"
      "sint (maxY ?cells) = Max (sint ` Y ` set ?cells)"
    and l: "linesOf (stdoutText ?ls) = ?ls"
    and n: "int (length (linesOf (stdoutText ?ls))) = Max (sint ` Y ` set ?cells) + 1"
    and w: "(\<forall>c \<in> set ?cells. length (C c) \<le> 1) \<longrightarrow>
              (\<forall>l \<in> set (linesOf (stdoutText ?ls)). int (length l) \<le> Max (sint ` X ` set ?cells) + 1)"
    by blast+
  from w short have "\<forall>l \<in> set ?ls. int (length l) \<le> Max (sint ` X ` set ?cells) + 1"
    unfolding l by blast
  then have "int (length ''A'') \<le> 2 + 1" "int (length ''  B'') \<le> 2 + 1"
    unfolding mx by simp_all
  moreover from n have "int (length (linesOf (stdoutText ?ls))) = 1 + 1"
    unfolding my .
  ultimately show ?thesis
    using run r m l unfolding mx my by blast
qed

text \<open>
  The claim as it was stated fails on three kinds of records the extractor makes. A
  payload of two bytes makes its line longer than \<open>maxX + 1\<close>: the record \<open>(0, "AB", 0)\<close>
  has \<open>maxX = 0\<close> and is printed as the line \<open>"AB"\<close>. A payload with a line feed inside,
  which \<^verbatim>\<open>strings.TrimSpace\<close> keeps, makes two lines of its row: the record with \<open>"A"\<close>,
  a line feed and \<open>"B"\<close> has \<open>maxY = 0\<close> and is printed as the lines \<open>"A"\<close> and \<open>"B"\<close>. And
  a record with \<open>x = 2 ^ 44\<close> asks \<^verbatim>\<open>make\<close> for a row of \<open>2 ^ 44 + 1\<close> strings, more than
  \<^verbatim>\<open>maxAlloc\<close> bytes: \<^verbatim>\<open>make\<close> panics and no line is printed.
\<close>

theorem C1_counterexample:
  "fst (parseCharacterGridFromDoc [[[''x'', ''c'', ''y''], [''0'', ''AB'', ''0'']]]) =
     [\<lparr>X = 0, Y = 0, C = ''AB''\<rparr>] \<and>
   renderGridFromCells [\<lparr>X = 0, Y = 0, C = ''AB''\<rparr>] = ([''AB''], None) \<and>
   sint (maxX [\<lparr>X = 0, Y = 0, C = ''AB''\<rparr>]) = 0 \<and>
   \<not> int (length ''AB'') \<le> sint (maxX [\<lparr>X = 0, Y = 0, C = ''AB''\<rparr>]) + 1 \<and>
   fst (parseCharacterGridFromDoc
         [[[''x'', ''c'', ''y''], [''0'', [CHR ''A'', CHR 0x0A, CHR ''B''], ''0'']]]) =
     [\<lparr>X = 0, Y = 0, C = [CHR ''A'', CHR 0x0A, CHR ''B'']\<rparr>] \<and>
   renderGridFromCells [\<lparr>X = 0, Y = 0, C = [CHR ''A'', CHR 0x0A, CHR ''B'']\<rparr>] =
     ([[CHR ''A'', CHR 0x0A, CHR ''B'']], None) \<and>
   sint (maxY [\<lparr>X = 0, Y = 0, C = [CHR ''A'', CHR 0x0A, CHR ''B'']\<rparr>]) = 0 \<and>
   linesOf (stdoutText [[CHR ''A'', CHR 0x0A, CHR ''B'']]) = [''A'', ''B''] \<and>
   fst (parseCharacterGridFromDoc [[[''x'', ''c'', ''y''], [''17592186044416'', ''A'', ''0'']]]) =
     [\<lparr>X = 17592186044416, Y = 0, C = ''A''\<rparr>] \<and>
   renderGridFromCells [\<lparr>X = 17592186044416, Y = 0, C = ''A''\<rparr>]
     = ([], Some MakesliceLenOutOfRange)"
  by code_simp

subsection \<open>The renderer on a concrete input\<close>

text \<open>
  Claim C2. For the records \<open>(x = 0, c = "A", y = 1)\<close> and \<open>(x = 2, c = "B", y = 0)\<close> the
  renderer prints exactly two lines and does not panic: first \<open>"A"\<close>, the row \<open>y = 1\<close> with
  the character at column 0, then two blanks and \<open>"B"\<close>, the row \<open>y = 0\<close> with the character
  at column 2.
\<close>

theorem C2_scenario_two_lines:
  "renderGridFromCells [\<lparr>X = 0, Y = 1, C = ''A''\<rparr>, \<lparr>X = 2, Y = 0, C = ''B''\<rparr>]
     = ([''A'', ''  B''], None)"
  by code_simp

subsection \<open>The order of the printed rows\<close>

text \<open>
  Claim C3, as amended. For every non-empty record list on which the renderer does not
  panic, the rows are printed top down: there are \<open>maxY + 1\<close> calls of
  \<^verbatim>\<open>fmt.Println\<close>, the \<open>k\<close>-th of them printing the line of row \<open>maxY - k\<close>, so the row of
  any record with the largest \<open>y\<close> is printed first and the row \<open>y = 0\<close> last, and when no
  payload holds a line feed these are the lines of standard output. On a list where the
  renderer panics nothing is printed.
\<close>

theorem C3_rows_top_down:
  assumes "cells \<noteq> []" and "renderGridFromCells cells = (ls, p)"
  shows "(p \<noteq> None \<longrightarrow> ls = []) \<and>
         (p = None \<longrightarrow>
            length ls = Suc (unat (maxY cells)) \<and>
            (\<forall>k < length ls. ls ! k = rowLine cells (unat (maxY cells) - k)) \<and>
            (\<forall>c \<in> set cells. (\<forall>d \<in> set cells. Y d \<le>s Y c) \<longrightarrow> hd ls = rowLine cells (unat (Y c))) \<and>
            last ls = rowLine cells 0 \<and>
            ((\<forall>c \<in> set cells. CHR 0x0A \<notin> set (C c)) \<longrightarrow> linesOf (stdoutText ls) = ls))"
proof -
  let ?h = "Suc (unat (maxY cells))"
  from renderGridFromCells_cases [OF assms(2)]
  show ?thesis
  proof
    assume "\<not> renderable cells \<and> p \<noteq> None \<and> ls = []"
    then show ?thesis
      by simp
  next
    assume ok: "renderable cells \<and> p = None \<and> ls = map (rowLine cells) (rev [0..<?h])"
    then have ls: "ls = map (rowLine cells) (rev [0..<?h])"
      by simp
    have len: "length ls = ?h"
      by (simp add: ls)
    have nth: "ls ! k = rowLine cells (unat (maxY cells) - k)" if "k < length ls" for k
      using that unfolding ls by (simp add: rev_nth del: upt_Suc)
    have "hd ls = ls ! 0"
      using len by (intro hd_conv_nth) auto
    with nth [of 0] len have hd: "hd ls = rowLine cells (unat (maxY cells))"
      by simp
    have "last ls = ls ! (length ls - 1)"
      using len by (intro last_conv_nth) auto
    with nth [of "length ls - 1"] len have last: "last ls = rowLine cells 0"
      by simp
    have top: "hd ls = rowLine cells (unat (Y c))"
      if "c \<in> set cells" "\<forall>d \<in> set cells. Y d \<le>s Y c" for c
      using largest_Y_is_maxY [of cells c] that ok hd by simp
    have lines: "linesOf (stdoutText ls) = ls" if "\<forall>c \<in> set cells. CHR 0x0A \<notin> set (C c)"
    proof (rule linesOf_stdoutText)
      show "\<forall>l \<in> set ls. CHR 0x0A \<notin> set l"
        unfolding ls using rowLine_no_line_feed [OF that] by auto
    qed
    from ok len nth last top lines show ?thesis
      by blast
  qed
qed

theorem C3_rows_top_down_witness:
  "renderGridFromCells [\<lparr>X = 0, Y = 1, C = ''A''\<rparr>, \<lparr>X = 2, Y = 0, C = ''B''\<rparr>] = ([''A'', ''  B''], None) \<and>
   hd [''A'', ''  B''] = rowLine [\<lparr>X = 0, Y = 1, C = ''A''\<rparr>, \<lparr>X = 2, Y = 0, C = ''B''\<rparr>] (unat (Y \<lparr>X = 0, Y = 1, C = ''A''\<rparr>)) \<and>
   last [''A'', ''  B''] = rowLine [\<lparr>X = 0, Y = 1, C = ''A''\<rparr>, \<lparr>X = 2, Y = 0, C = ''B''\<rparr>] 0 \<and>
   linesOf (stdoutText [''A'', ''  B'']) = [''A'', ''  B'']"
proof -
  let ?a = "\<lparr>X = 0, Y = 1, C = ''A''\<rparr>" and ?b = "\<lparr>X = 2, Y = 0, C = ''B''\<rparr>"
  have ne: "[?a, ?b] \<noteq> []"
    by simp
  have run: "renderGridFromCells [?a, ?b] = ([''A'', ''  B''], None)"
    by code_simp
  have top: "\<forall>d \<in> set [?a, ?b]. Y d \<le>s Y ?a"
    by (simp add: word_sle_eq)
  have nolf: "\<forall>c \<in> set [?a, ?b]. CHR 0x0A \<notin> set (C c)"
    by simp
  from C3_rows_top_down [OF ne run]
  have h: "\<forall>c \<in> set [?a, ?b]. (\<forall>d \<in> set [?a, ?b]. Y d \<le>s Y c) \<longrightarrow>
              hd [''A'', ''  B''] = rowLine [?a, ?b] (unat (Y c))"
    and l: "last [''A'', ''  B''] = rowLine [?a, ?b] 0"
    and t: "(\<forall>c \<in> set [?a, ?b]. CHR 0x0A \<notin> set (C c)) \<longrightarrow>
              linesOf (stdoutText [''A'', ''  B'']) = [''A'', ''  B'']"
    by blast+
  have "?a \<in> set [?a, ?b]"
    by simp
  with h top have "hd [''A'', ''  B''] = rowLine [?a, ?b] (unat (Y ?a))"
    by blast
  moreover from t nolf have "linesOf (stdoutText [''A'', ''  B'']) = [''A'', ''  B'']"
    by blast
  ultimately show ?thesis
    using run l by blast
qed

text \<open>
  The claim as it was stated, for every non-empty record list, fails where the renderer
  panics. The rows \<open>(0, "A", 0)\<close> and \<open>(1, "B", 9223372036854775807)\<close> are extracted as two
  records; \<open>maxY + 1\<close> wraps around to a negative length, \<^verbatim>\<open>make\<close> panics, and nothing is
  printed: no line is the first or the last one, and the row \<open>y = 0\<close> is not printed.
\<close>

theorem C3_counterexample:
  "fst (parseCharacterGridFromDoc
         [[[''x'', ''c'', ''y''], [''0'', ''A'', ''0''], [''1'', ''B'', ''9223372036854775807'']]]) =
     [\<lparr>X = 0, Y = 0, C = ''A''\<rparr>, \<lparr>X = 1, Y = 9223372036854775807, C = ''B''\<rparr>] \<and>
   [\<lparr>X = 0, Y = 0, C = ''A''\<rparr>, \<lparr>X = 1, Y = 9223372036854775807, C = ''B''\<rparr>] \<noteq> [] \<and>
   renderGridFromCells [\<lparr>X = 0, Y = 0, C = ''A''\<rparr>, \<lparr>X = 1, Y = 9223372036854775807, C = ''B''\<rparr>] =
     ([], Some MakesliceLenOutOfRange)"
  by code_simp

subsection \<open>Records that share a coordinate: the last one wins\<close>

text \<open>
  Claim C4. When two records of the list share their coordinates, the earlier one has no
  effect: the renderer does exactly what it does on the list without it. And in a run
  that prints, the line of the row of a record that is the last one with its
  coordinates is made of the strings of the columns to its left, then its own payload at
  grid column \<open>x\<close>, then the strings of the columns to its right.
\<close>

theorem C4_last_write_wins:
  assumes "X c1 = X c2" and "Y c1 = Y c2"
  shows "renderGridFromCells (pre @ c1 # mid @ c2 # post) =
           renderGridFromCells (pre @ mid @ c2 # post) \<and>
         ((\<forall>d \<in> set post. \<not> (X d = X c2 \<and> Y d = Y c2)) \<longrightarrow>
          renderGridFromCells (pre @ c1 # mid @ c2 # post) = (ls, None) \<longrightarrow>
            rowCells (pre @ c1 # mid @ c2 # post) (unat (Y c2)) ! unat (X c2) = C c2 \<and>
            ls ! (unat (maxY (pre @ c1 # mid @ c2 # post)) - unat (Y c2)) =
              TrimRight
                (concat (take (unat (X c2)) (rowCells (pre @ c1 # mid @ c2 # post) (unat (Y c2)))) @
                 C c2 @
                 concat (drop (Suc (unat (X c2))) (rowCells (pre @ c1 # mid @ c2 # post) (unat (Y c2)))))
                '' '')"
proof (intro conjI impI)
  show "renderGridFromCells (pre @ c1 # mid @ c2 # post) =
          renderGridFromCells (pre @ mid @ c2 # post)"
    using assms by (rule renderGridFromCells_drop_earlier)
next
  let ?cells = "pre @ c1 # mid @ c2 # post"
  let ?row = "rowCells ?cells (unat (Y c2))"
  assume last: "\<forall>d \<in> set post. \<not> (X d = X c2 \<and> Y d = Y c2)"
    and run: "renderGridFromCells ?cells = (ls, None)"
  have mem: "c2 \<in> set ?cells"
    by simp
  from printed_row_of_record [OF run mem]
  have x: "unat (X c2) < length ?row"
    and line: "ls ! (unat (maxY ?cells) - unat (Y c2)) = rowLine ?cells (unat (Y c2))"
    by simp_all
  from lastAt_last_record [OF last, of "pre @ c1 # mid"]
  have "shown ?cells (unat (X c2)) (unat (Y c2)) = C c2"
    by (simp add: shown_def)
  with x show cell: "?row ! unat (X c2) = C c2"
    by (simp add: rowCells_def del: upt_Suc)
  from concat_split_at [OF x] cell line
  show "ls ! (unat (maxY ?cells) - unat (Y c2)) =
          TrimRight (concat (take (unat (X c2)) ?row) @ C c2 @ concat (drop (Suc (unat (X c2))) ?row)) '' ''"
    by (simp add: rowLine_def)
qed

theorem C4_last_write_wins_witness:
  "renderGridFromCells ([] @ \<lparr>X = 1, Y = 0, C = ''a''\<rparr> # [\<lparr>X = 0, Y = 0, C = ''H''\<rparr>] @ \<lparr>X = 1, Y = 0, C = ''I''\<rparr> # []) =
     renderGridFromCells ([] @ [\<lparr>X = 0, Y = 0, C = ''H''\<rparr>] @ \<lparr>X = 1, Y = 0, C = ''I''\<rparr> # []) \<and>
   renderGridFromCells ([] @ \<lparr>X = 1, Y = 0, C = ''a''\<rparr> # [\<lparr>X = 0, Y = 0, C = ''H''\<rparr>] @ \<lparr>X = 1, Y = 0, C = ''I''\<rparr> # []) =
     ([''HI''], None) \<and>
   [''HI''] ! (unat (maxY ([] @ \<lparr>X = 1, Y = 0, C = ''a''\<rparr> # [\<lparr>X = 0, Y = 0, C = ''H''\<rparr>] @ \<lparr>X = 1, Y = 0, C = ''I''\<rparr> # [])) - unat (Y \<lparr>X = 1, Y = 0, C = ''I''\<rparr>)) =
     TrimRight (''H'' @ C \<lparr>X = 1, Y = 0, C = ''I''\<rparr> @ []) '' ''"
proof -
  let ?c1 = "\<lparr>X = 1, Y = 0, C = ''a''\<rparr>" and ?m = "\<lparr>X = 0, Y = 0, C = ''H''\<rparr>"
    and ?c2 = "\<lparr>X = 1, Y = 0, C = ''I''\<rparr>"
  let ?cells = "[] @ ?c1 # [?m] @ ?c2 # []"
  have same: "X ?c1 = X ?c2" "Y ?c1 = Y ?c2"
    by simp_all
  have last: "\<forall>d \<in> set []. \<not> (X d = X ?c2 \<and> Y d = Y ?c2)"
    by simp
  have run: "renderGridFromCells ?cells = ([''HI''], None)"
    by code_simp
  have before: "concat (take (unat (X ?c2)) (rowCells ?cells (unat (Y ?c2)))) = ''H''"
    by code_simp
  have after: "concat (drop (Suc (unat (X ?c2))) (rowCells ?cells (unat (Y ?c2)))) = []"
    by code_simp
  from C4_last_write_wins [OF same, of "[]" "[?m]" "[]" "[''HI'']"] last run
  have "renderGridFromCells ?cells = renderGridFromCells ([] @ [?m] @ ?c2 # [])"
    and "[''HI''] ! (unat (maxY ?cells) - unat (Y ?c2)) =
      TrimRight (concat (take (unat (X ?c2)) (rowCells ?cells (unat (Y ?c2)))) @ C ?c2 @
        concat (drop (Suc (unat (X ?c2))) (rowCells ?cells (unat (Y ?c2))))) '' ''"
    by blast+
  with run show ?thesis
    unfolding before after by simp
qed

subsection \<open>Rows the extractor skips\<close>

text \<open>
  Claim C5. A row after the header that has fewer than three cells, or whose x or y cell
  (trimmed) is not an integer for \<^verbatim>\<open>strconv.Atoi\<close>, adds no record whatever has been
  extracted so far, and the records extracted from the table are those extracted from
  the table without that row: the rows after it are processed as before.
\<close>

theorem C5_bad_row_skipped:
  assumes "length r < 3 \<or> Atoi (TrimSpace (r ! 0)) = None \<or> Atoi (TrimSpace (r ! 2)) = None"
  shows "fst (rowFunc (Suc i) r st) = fst st \<and>
         fst (parseCharacterGridFromDoc ((h # pre @ r # post) # ts)) =
         fst (parseCharacterGridFromDoc ((h # pre @ post) # ts))"
proof -
  from assms have "rowCell r = None"
    by (auto simp: rowCell_def split: option.splits)
  then show ?thesis
    by (simp add: fst_rowFunc_Suc fst_parse_table map_filter_split List.map_filter_def)
qed

theorem C5_bad_row_skipped_witness:
  "Atoi (TrimSpace ([''abc'', ''Q'', ''1''] ! 0)) = None \<and>
   fst (parseCharacterGridFromDoc
          (([''x'', ''c'', ''y''] # [[''0'', ''A'', ''1'']] @ [''abc'', ''Q'', ''1''] # [[''2'', ''B'', ''0'']]) # [])) =
   fst (parseCharacterGridFromDoc
          (([''x'', ''c'', ''y''] # [[''0'', ''A'', ''1'']] @ [[''2'', ''B'', ''0'']]) # [])) \<and>
   fst (parseCharacterGridFromDoc
          (([''x'', ''c'', ''y''] # [[''0'', ''A'', ''1'']] @ [[''2'', ''B'', ''0'']]) # [])) =
   [\<lparr>X = 0, Y = 1, C = ''A''\<rparr>, \<lparr>X = 2, Y = 0, C = ''B''\<rparr>]"
proof -
  have bad: "Atoi (TrimSpace ([''abc'', ''Q'', ''1''] ! 0)) = None"
    by code_simp
  then have "length [''abc'', ''Q'', ''1''] < 3 \<or> Atoi (TrimSpace ([''abc'', ''Q'', ''1''] ! 0)) = None \<or>
      Atoi (TrimSpace ([''abc'', ''Q'', ''1''] ! 2)) = None"
    by blast
  from C5_bad_row_skipped [OF this, of 0 "([], [])" "[''x'', ''c'', ''y'']" "[[''0'', ''A'', ''1'']]"
      "[[''2'', ''B'', ''0'']]" "[]"]
  have "fst (parseCharacterGridFromDoc
          (([''x'', ''c'', ''y''] # [[''0'', ''A'', ''1'']] @ [''abc'', ''Q'', ''1''] # [[''2'', ''B'', ''0'']]) # [])) =
   fst (parseCharacterGridFromDoc
          (([''x'', ''c'', ''y''] # [[''0'', ''A'', ''1'']] @ [[''2'', ''B'', ''0'']]) # []))"
    by blast
  moreover have "fst (parseCharacterGridFromDoc
          (([''x'', ''c'', ''y''] # [[''0'', ''A'', ''1'']] @ [[''2'', ''B'', ''0'']]) # [])) =
   [\<lparr>X = 0, Y = 1, C = ''A''\<rparr>, \<lparr>X = 2, Y = 0, C = ''B''\<rparr>]"
    by code_simp
  ultimately show ?thesis
    using bad by simp
qed

subsection \<open>What the extractor reads\<close>

text \<open>
  Claim C6. The extractor reads the first table only (a document without a table gives
  nothing), skips the row at index 0 whatever it holds, and its records are those of the
  specification's wording. In particular a later row with at least three cells whose
  trimmed cells 0 and 2 parse as the integers \<open>x\<close> and \<open>y\<close> gives the record with these
  coordinates and the trimmed cell 1 as its payload, at its place in the order of the
  rows, and a row with fewer than three cells gives none.
\<close>

theorem C6_extractor_mapping:
  "parseCharacterGridFromDoc [] = ([], []) \<and>
   parseCharacterGridFromDoc (t # ts) = parseCharacterGridFromDoc [t] \<and>
   parseCharacterGridFromDoc ((h # rows) # ts) = parseCharacterGridFromDoc ((h' # rows) # ts) \<and>
   fst (parseCharacterGridFromDoc doc) = extracted doc \<and>
   (3 \<le> length r \<longrightarrow> Atoi (TrimSpace (r ! 0)) = Some x \<longrightarrow> Atoi (TrimSpace (r ! 2)) = Some y \<longrightarrow>
      fst (parseCharacterGridFromDoc ((h # pre @ r # post) # ts)) =
        fst (parseCharacterGridFromDoc ((h # pre) # ts)) @
        \<lparr>X = x, Y = y, C = TrimSpace (r ! 1)\<rparr> #
        fst (parseCharacterGridFromDoc ((h # post) # ts))) \<and>
   (length r < 3 \<longrightarrow>
      fst (parseCharacterGridFromDoc ((h # pre @ r # post) # ts)) =
        fst (parseCharacterGridFromDoc ((h # pre) # ts)) @
        fst (parseCharacterGridFromDoc ((h # post) # ts)))"
proof (intro conjI impI)
  show "parseCharacterGridFromDoc [] = ([], [])"
    by (simp add: parseCharacterGridFromDoc_def First_def)
  show "parseCharacterGridFromDoc (t # ts) = parseCharacterGridFromDoc [t]"
    by (simp add: parseCharacterGridFromDoc_def First_def)
  show "parseCharacterGridFromDoc ((h # rows) # ts) = parseCharacterGridFromDoc ((h' # rows) # ts)"
    by (simp add: parseCharacterGridFromDoc_def First_def rowFunc_0)
  show "fst (parseCharacterGridFromDoc doc) = extracted doc"
    by (rule fst_parse_extracted)
next
  assume "3 \<le> length r" "Atoi (TrimSpace (r ! 0)) = Some x" "Atoi (TrimSpace (r ! 2)) = Some y"
  then have "rowCell r = Some \<lparr>X = x, Y = y, C = TrimSpace (r ! 1)\<rparr>"
    by (simp add: rowCell_def)
  then show "fst (parseCharacterGridFromDoc ((h # pre @ r # post) # ts)) =
        fst (parseCharacterGridFromDoc ((h # pre) # ts)) @
        \<lparr>X = x, Y = y, C = TrimSpace (r ! 1)\<rparr> #
        fst (parseCharacterGridFromDoc ((h # post) # ts))"
    by (simp add: fst_parse_table map_filter_split)
next
  assume "length r < 3"
  then have "rowCell r = None"
    by (simp add: rowCell_def)
  then show "fst (parseCharacterGridFromDoc ((h # pre @ r # post) # ts)) =
        fst (parseCharacterGridFromDoc ((h # pre) # ts)) @
        fst (parseCharacterGridFromDoc ((h # post) # ts))"
    by (simp add: fst_parse_table map_filter_split)
qed

theorem C6_extractor_mapping_witness:
  "Atoi (TrimSpace (['' 2 '', '' B '', ''0 '', ''more''] ! 0)) = Some 2 \<and>
   Atoi (TrimSpace (['' 2 '', '' B '', ''0 '', ''more''] ! 2)) = Some 0 \<and>
   TrimSpace (['' 2 '', '' B '', ''0 '', ''more''] ! 1) = ''B'' \<and>
   fst (parseCharacterGridFromDoc
          (([''7'', ''H'', ''7''] # [[''0'', ''A'', ''1'']] @ ['' 2 '', '' B '', ''0 '', ''more''] # [[''5'', ''Z'']])
           # [[[''h''], [''9'', ''T'', ''9'']]])) =
     [\<lparr>X = 0, Y = 1, C = ''A''\<rparr>] @ \<lparr>X = 2, Y = 0, C = ''B''\<rparr> # [] \<and>
   fst (parseCharacterGridFromDoc
          (([''7'', ''H'', ''7''] # [[''0'', ''A'', ''1'']] @ [''5'', ''Z''] # [])
           # [[[''h''], [''9'', ''T'', ''9'']]])) =
     [\<lparr>X = 0, Y = 1, C = ''A''\<rparr>] @ []"
proof -
  let ?r = "['' 2 '', '' B '', ''0 '', ''more'']"
  let ?hd = "[''7'', ''H'', ''7'']" and ?rest = "[[[''h''], [''9'', ''T'', ''9'']]]"
  have len: "3 \<le> length ?r"
    by simp
  have x: "Atoi (TrimSpace (?r ! 0)) = Some 2" and y: "Atoi (TrimSpace (?r ! 2)) = Some 0"
    and c: "TrimSpace (?r ! 1) = ''B''"
    by code_simp+
  have pre: "fst (parseCharacterGridFromDoc ((?hd # [[''0'', ''A'', ''1'']]) # ?rest)) =
      [\<lparr>X = 0, Y = 1, C = ''A''\<rparr>]"
    by code_simp
  have post: "fst (parseCharacterGridFromDoc ((?hd # [[''5'', ''Z'']]) # ?rest)) = []"
    by code_simp
  have none: "fst (parseCharacterGridFromDoc ((?hd # []) # ?rest)) = []"
    by code_simp
  from C6_extractor_mapping [where r = ?r and x = 2 and y = 0 and h = ?hd
      and pre = "[[''0'', ''A'', ''1'']]" and post = "[[''5'', ''Z'']]" and ts = ?rest] len x y
  have "fst (parseCharacterGridFromDoc
          ((?hd # [[''0'', ''A'', ''1'']] @ ?r # [[''5'', ''Z'']]) # ?rest)) =
        fst (parseCharacterGridFromDoc ((?hd # [[''0'', ''A'', ''1'']]) # ?rest)) @
        \<lparr>X = 2, Y = 0, C = TrimSpace (?r ! 1)\<rparr> #
        fst (parseCharacterGridFromDoc ((?hd # [[''5'', ''Z'']]) # ?rest))"
    by blast
  then have good: "fst (parseCharacterGridFromDoc
          ((?hd # [[''0'', ''A'', ''1'']] @ ?r # [[''5'', ''Z'']]) # ?rest)) =
      [\<lparr>X = 0, Y = 1, C = ''A''\<rparr>] @ \<lparr>X = 2, Y = 0, C = ''B''\<rparr> # []"
    unfolding pre post c .
  have "length [''5'', ''Z''] < 3"
    by simp
  with C6_extractor_mapping [where r = "[''5'', ''Z'']" and h = ?hd
      and pre = "[[''0'', ''A'', ''1'']]" and post = "[]" and ts = ?rest]
  have "fst (parseCharacterGridFromDoc ((?hd # [[''0'', ''A'', ''1'']] @ [''5'', ''Z''] # []) # ?rest)) =
        fst (parseCharacterGridFromDoc ((?hd # [[''0'', ''A'', ''1'']]) # ?rest)) @
        fst (parseCharacterGridFromDoc ((?hd # []) # ?rest))"
    by blast
  then have short: "fst (parseCharacterGridFromDoc
          ((?hd # [[''0'', ''A'', ''1'']] @ [''5'', ''Z''] # []) # ?rest)) =
      [\<lparr>X = 0, Y = 1, C = ''A''\<rparr>] @ []"
    unfolding pre none .
  from x y c good short show ?thesis
    by blast
qed

subsection \<open>An empty extraction\<close>

text \<open>
  Claim C7. When the fetch succeeded with status 200, the body parsed, and the extractor
  returned no record, the program prints its two debugging lines and no line of a grid,
  writes \<open>"No valid table data found."\<close> last on standard error, and exits with status 1.
\<close>

theorem C7_empty_extraction_is_fatal:
  assumes "2 \<le> length Args" and "Get (Args ! 1) = Inr resp" and "StatusCode resp = 200"
    and "Body resp = Inr doc" and "fst (parseCharacterGridFromDoc doc) = []"
  shows "main Args Get =
           \<lparr>stdout = [PrintDocument doc, PrintCells []],
            stderr = snd (parseCharacterGridFromDoc doc) @ [Log ''No valid table data found.'' []],
            exit_status = 1\<rparr> \<and>
         (\<forall>l. PrintLine l \<notin> set (stdout (main Args Get))) \<and>
         exit_status (main Args Get) \<noteq> 0"
proof -
  obtain logged where p: "parseCharacterGridFromDoc doc = ([], logged)"
    using assms(5) by (cases "parseCharacterGridFromDoc doc") simp
  from assms(1-4) have "main Args Get = mainParsed (Inr doc)"
    by (simp add: main_def)
  also have "\<dots> =
           \<lparr>stdout = [PrintDocument doc, PrintCells []],
            stderr = snd (parseCharacterGridFromDoc doc) @ [Log ''No valid table data found.'' []],
            exit_status = 1\<rparr>"
    by (simp add: mainParsed_def Fatalf_def p)
  finally show ?thesis
    by simp
qed

theorem C7_empty_extraction_is_fatal_witness:
  "main [''main'', ''https://docs.example/pub'']
     (answers (Inr \<lparr>StatusCode = 200, Body = Inr [[[''x'', ''c'', ''y''], [''abc'', ''Q'', ''1'']]]\<rparr>)) =
     \<lparr>stdout = [PrintDocument [[[''x'', ''c'', ''y''], [''abc'', ''Q'', ''1'']]], PrintCells []],
      stderr = [Log (''Skipping invalid row: %v %v'' @ [CHR 0x0A]) [StrArg ''abc'', StrArg ''1''],
                Log ''No valid table data found.'' []],
      exit_status = 1\<rparr> \<and>
   main [''main'', ''https://docs.example/pub''] (answers (Inr \<lparr>StatusCode = 200, Body = Inr []\<rparr>)) =
     \<lparr>stdout = [PrintDocument [], PrintCells []],
      stderr = [Log ''No valid table data found.'' []], exit_status = 1\<rparr>"
proof -
  let ?doc = "[[[''x'', ''c'', ''y''], [''abc'', ''Q'', ''1'']]]"
  let ?args = "[''main'', ''https://docs.example/pub'']"
  have args: "2 \<le> length ?args"
    by simp
  have p: "parseCharacterGridFromDoc ?doc =
      ([], [Log (''Skipping invalid row: %v %v'' @ [CHR 0x0A]) [StrArg ''abc'', StrArg ''1'']])"
    by code_simp
  have p0: "parseCharacterGridFromDoc [] = ([], [])"
    by code_simp
  have "main ?args (answers (Inr \<lparr>StatusCode = 200, Body = Inr ?doc\<rparr>)) =
           \<lparr>stdout = [PrintDocument ?doc, PrintCells []],
            stderr = snd (parseCharacterGridFromDoc ?doc) @ [Log ''No valid table data found.'' []],
            exit_status = 1\<rparr>"
    using C7_empty_extraction_is_fatal [of ?args "answers (Inr \<lparr>StatusCode = 200, Body = Inr ?doc\<rparr>)"
        "\<lparr>StatusCode = 200, Body = Inr ?doc\<rparr>" ?doc] args p
    by (simp add: answers_def)
  moreover have "main ?args (answers (Inr \<lparr>StatusCode = 200, Body = Inr []\<rparr>)) =
           \<lparr>stdout = [PrintDocument [], PrintCells []],
            stderr = snd (parseCharacterGridFromDoc []) @ [Log ''No valid table data found.'' []],
            exit_status = 1\<rparr>"
    using C7_empty_extraction_is_fatal [of ?args "answers (Inr \<lparr>StatusCode = 200, Body = Inr []\<rparr>)"
        "\<lparr>StatusCode = 200, Body = Inr []\<rparr>" "[]"] args p0
    by (simp add: answers_def)
  ultimately show ?thesis
    by (simp add: p p0)
qed

subsection \<open>The status check\<close>

text \<open>
  Claim C8, as amended. Once \<^verbatim>\<open>http.Get\<close> has returned a response, the program is fatal
  at the status check exactly when the status is not 200. Every other status, so every
  status outside the 2xx range and every 2xx status other than 200, ends the process with
  the message \<open>"Failed to fetch document: HTTP <status>"\<close> and exit status 1, nothing
  printed; status 200 goes on to the parsing of the body.
\<close>

theorem C8_fatal_unless_200:
  assumes "2 \<le> length Args" and "Get (Args ! 1) = Inr resp"
  shows "(StatusCode resp \<noteq> 200 \<longrightarrow>
            main Args Get =
              \<lparr>stdout = [],
               stderr = [Log ''Failed to fetch document: HTTP %d'' [IntArg (StatusCode resp)]],
               exit_status = 1\<rparr>) \<and>
         (StatusCode resp = 200 \<longrightarrow> main Args Get = mainParsed (Body resp)) \<and>
         (Log ''Failed to fetch document: HTTP %d'' [IntArg (StatusCode resp)]
            \<in> set (stderr (main Args Get)) \<longleftrightarrow> StatusCode resp \<noteq> 200) \<and>
         (\<not> is2xx (StatusCode resp) \<longrightarrow> StatusCode resp \<noteq> 200)"
proof -
  from assms have fatal: "main Args Get =
      \<lparr>stdout = [],
       stderr = [Log ''Failed to fetch document: HTTP %d'' [IntArg (StatusCode resp)]],
       exit_status = 1\<rparr>" if "StatusCode resp \<noteq> 200"
    using that by (simp add: main_def Fatalf_def)
  from assms have ok: "main Args Get = mainParsed (Body resp)" if "StatusCode resp = 200"
    using that by (simp add: main_def)
  have "is2xx 200"
    by (simp add: is2xx_def word_sle_eq word_sless_alt)
  then have "\<not> is2xx (StatusCode resp) \<longrightarrow> StatusCode resp \<noteq> 200"
    by auto
  with fatal ok mainParsed_no_fetch_error [of "[IntArg (StatusCode resp)]" "Body resp"]
  show ?thesis
    by (cases "StatusCode resp = 200") simp_all
qed

theorem C8_fatal_unless_200_witness:
  "main [''main'', ''https://docs.example/pub'']
     (answers (Inr \<lparr>StatusCode = 404, Body = Inr [[[''x'', ''c'', ''y''], [''0'', ''A'', ''0'']]]\<rparr>)) =
     \<lparr>stdout = [], stderr = [Log ''Failed to fetch document: HTTP %d'' [IntArg 404]], exit_status = 1\<rparr> \<and>
   \<not> is2xx 404 \<and>
   main [''main'', ''https://docs.example/pub'']
     (answers (Inr \<lparr>StatusCode = 200, Body = Inr [[[''x'', ''c'', ''y''], [''0'', ''A'', ''0'']]]\<rparr>)) =
     mainParsed (Inr [[[''x'', ''c'', ''y''], [''0'', ''A'', ''0'']]]) \<and>
   exit_status (mainParsed (Inr [[[''x'', ''c'', ''y''], [''0'', ''A'', ''0'']]])) = 0"
proof -
  let ?doc = "[[[''x'', ''c'', ''y''], [''0'', ''A'', ''0'']]]"
  let ?args = "[''main'', ''https://docs.example/pub'']"
  have args: "2 \<le> length ?args"
    by simp
  have a: "main ?args (answers (Inr \<lparr>StatusCode = 404, Body = Inr ?doc\<rparr>)) =
     \<lparr>stdout = [], stderr = [Log ''Failed to fetch document: HTTP %d'' [IntArg 404]], exit_status = 1\<rparr>"
    using C8_fatal_unless_200 [of ?args "answers (Inr \<lparr>StatusCode = 404, Body = Inr ?doc\<rparr>)"
        "\<lparr>StatusCode = 404, Body = Inr ?doc\<rparr>"] args
    by (simp add: answers_def)
  have b: "main ?args (answers (Inr \<lparr>StatusCode = 200, Body = Inr ?doc\<rparr>)) = mainParsed (Inr ?doc)"
    using C8_fatal_unless_200 [of ?args "answers (Inr \<lparr>StatusCode = 200, Body = Inr ?doc\<rparr>)"
        "\<lparr>StatusCode = 200, Body = Inr ?doc\<rparr>"] args
    by (simp add: answers_def)
  have c: "\<not> is2xx 404"
    by code_simp
  have d: "exit_status (mainParsed (Inr ?doc)) = 0"
    by code_simp
  from a b c d show ?thesis
    by blast
qed

text \<open>
  The claim as it was stated, that every 2xx response is accepted, fails at status 204:
  it is in the 2xx range and the program ends at the status check.
\<close>

theorem C8_counterexample:
  "is2xx 204 \<and>
   main [''main'', ''https://docs.example/pub'']
     (answers (Inr \<lparr>StatusCode = 204, Body = Inr [[[''x'', ''c'', ''y''], [''0'', ''A'', ''0'']]]\<rparr>)) =
     \<lparr>stdout = [], stderr = [Log ''Failed to fetch document: HTTP %d'' [IntArg 204]], exit_status = 1\<rparr>"
  by code_simp

subsection \<open>Writes into the grid\<close>

text \<open>
  Claim C9. When every record has non-negative coordinates, every record's coordinates
  lie between 0 and the maxima the renderer computes, no write \<open>grid[c.Y][c.X]\<close> into
  the grid that was allocated for these maxima is out of range, and the renderer as a
  whole never ends in the index panic.
\<close>

theorem C9_grid_writes_in_bounds:
  assumes "\<forall>c \<in> set cells. 0 \<le>s X c \<and> 0 \<le>s Y c"
  shows "(\<forall>c \<in> set cells. 0 \<le>s Y c \<and> Y c \<le>s maxY cells \<and> 0 \<le>s X c \<and> X c \<le>s maxX cells) \<and>
         (\<forall>grid. initGrid (maxX cells) (maxY cells) = Inr grid \<longrightarrow>
            (\<exists>grid'. placeCells grid cells = Inr grid')) \<and>
         snd (renderGridFromCells cells) \<noteq> Some IndexOutOfRange"
proof (intro conjI allI impI)
  show "\<forall>c \<in> set cells. 0 \<le>s Y c \<and> Y c \<le>s maxY cells \<and> 0 \<le>s X c \<and> X c \<le>s maxX cells"
    using assms maxXY_ge [of _ cells] by (simp add: word_sle_eq)
next
  fix grid
  assume init: "initGrid (maxX cells) (maxY cells) = Inr grid"
  have pos: "0 \<le> sint (maxX cells)" "0 \<le> sint (maxY cells)"
    using maxXY_nonneg [of cells] by simp_all
  have bound: "sint (maxX cells) < 17592186044416" "sint (maxY cells) < 11728124029610"
    using maxXY_bound_cases [of cells] initGrid_overflow [OF pos] init by auto
  let ?w = "Suc (nat (sint (maxX cells)))" and ?h = "Suc (nat (sint (maxY cells)))"
  from initGrid_ok [OF pos(1) bound(1) pos(2) bound(2)] init
  have grid: "grid = replicate ?h (replicate ?w '' '')"
    by simp
  have rect: "\<forall>r \<in> set grid. length r = ?w"
    unfolding grid by simp
  have "\<forall>c \<in> set cells. 0 \<le> sint (Y c) \<and> sint (Y c) < int (length grid) \<and>
          0 \<le> sint (X c) \<and> sint (X c) < int ?w"
    unfolding grid using assms maxXY_ge [of _ cells] pos by (fastforce simp: word_sle_eq)
  from placeCells_ok [OF rect this] show "\<exists>grid'. placeCells grid cells = Inr grid'"
    by blast
next
  from maxXY_bound_cases [of cells]
  show "snd (renderGridFromCells cells) \<noteq> Some IndexOutOfRange"
  proof
    assume "sint (maxX cells) < 17592186044416 \<and> sint (maxY cells) < 11728124029610"
    moreover from assms have "\<forall>c \<in> set cells. 0 \<le> sint (X c) \<and> 0 \<le> sint (Y c)"
      by (simp add: word_sle_eq)
    ultimately show ?thesis
      by (simp add: renderGridFromCells_ok)
  next
    assume "17592186044416 \<le> sint (maxX cells) \<or> 11728124029610 \<le> sint (maxY cells)"
    then show ?thesis
      by (simp add: renderGridFromCells_overflow)
  qed
qed

theorem C9_grid_writes_in_bounds_witness:
  "0 \<le>s X \<lparr>X = 2, Y = 0, C = ''B''\<rparr> \<and>
   X \<lparr>X = 2, Y = 0, C = ''B''\<rparr> \<le>s maxX [\<lparr>X = 0, Y = 1, C = ''A''\<rparr>, \<lparr>X = 2, Y = 0, C = ''B''\<rparr>] \<and>
   Y \<lparr>X = 0, Y = 1, C = ''A''\<rparr> \<le>s maxY [\<lparr>X = 0, Y = 1, C = ''A''\<rparr>, \<lparr>X = 2, Y = 0, C = ''B''\<rparr>] \<and>
   snd (renderGridFromCells [\<lparr>X = 0, Y = 1, C = ''A''\<rparr>, \<lparr>X = 2, Y = 0, C = ''B''\<rparr>])
     \<noteq> Some IndexOutOfRange"
proof -
  have "\<forall>c \<in> set [\<lparr>X = 0, Y = 1, C = ''A''\<rparr>, \<lparr>X = 2, Y = 0, C = ''B''\<rparr>]. 0 \<le>s X c \<and> 0 \<le>s Y c"
    by (simp add: word_sle_eq)
  from C9_grid_writes_in_bounds [OF this] show ?thesis
    by simp
qed

subsection \<open>Payloads of any length in the output\<close>

text \<open>
  Claim C10, as amended. Grid cells hold strings of any length. The extractor accepts a
  row whose character cell trims to the empty string and makes a record with the empty
  payload of it. The renderer prints for every row the trimmed concatenation of the row's
  cell strings, with no padding to a common width, so the string of grid column \<open>x\<close>
  starts at the display column that is the total length of the strings to its left. That
  is \<open>x\<close> when each of them has length 1, and the columns up to \<open>x\<close> are all at their own
  display column exactly when each string to the left of \<open>x\<close> has length 1.
\<close>

theorem C10_strings_not_characters:
  "(3 \<le> length r \<longrightarrow> Atoi (TrimSpace (r ! 0)) = Some x \<longrightarrow> Atoi (TrimSpace (r ! 2)) = Some y \<longrightarrow>
      TrimSpace (r ! 1) = [] \<longrightarrow>
      fst (parseCharacterGridFromDoc ((h # pre @ r # post) # ts)) =
        fst (parseCharacterGridFromDoc ((h # pre) # ts)) @
        \<lparr>X = x, Y = y, C = []\<rparr> #
        fst (parseCharacterGridFromDoc ((h # post) # ts))) \<and>
   (renderGridFromCells cells = (ls, None) \<longrightarrow>
      (\<forall>j \<le> unat (maxY cells).
         ls ! (unat (maxY cells) - j) = TrimRight (concat (rowCells cells j)) '' '')) \<and>
   (i \<le> unat (maxX cells) \<longrightarrow>
      concat (rowCells cells j) =
        concat (take i (rowCells cells j)) @ shown cells i j @ concat (drop (Suc i) (rowCells cells j)) \<and>
      displayColumn cells i j = (\<Sum>k<i. length (shown cells k j)) \<and>
      ((\<forall>k < i. length (shown cells k j) = 1) \<longrightarrow> displayColumn cells i j = i) \<and>
      ((\<forall>i' \<le> i. displayColumn cells i' j = i') \<longleftrightarrow> (\<forall>k < i. length (shown cells k j) = 1)))"
proof (intro conjI impI allI)
  assume "3 \<le> length r" "Atoi (TrimSpace (r ! 0)) = Some x" "Atoi (TrimSpace (r ! 2)) = Some y"
    "TrimSpace (r ! 1) = []"
  then have "rowCell r = Some \<lparr>X = x, Y = y, C = []\<rparr>"
    by (simp add: rowCell_def)
  then show "fst (parseCharacterGridFromDoc ((h # pre @ r # post) # ts)) =
        fst (parseCharacterGridFromDoc ((h # pre) # ts)) @
        \<lparr>X = x, Y = y, C = []\<rparr> #
        fst (parseCharacterGridFromDoc ((h # post) # ts))"
    by (simp add: fst_parse_table map_filter_split)
next
  fix j
  assume run: "renderGridFromCells cells = (ls, None)" and j: "j \<le> unat (maxY cells)"
  from renderGridFromCells_cases [OF run]
  have "ls = map (rowLine cells) (rev [0..<Suc (unat (maxY cells))])"
    by simp
  with j show "ls ! (unat (maxY cells) - j) = TrimRight (concat (rowCells cells j)) '' ''"
    by (simp add: rev_nth rowLine_def del: upt_Suc)
next
  assume i: "i \<le> unat (maxX cells)"
  then have len: "i < length (rowCells cells j)"
    by (simp add: rowCells_def)
  then have "rowCells cells j ! i = shown cells i j"
    by (simp add: rowCells_def del: upt_Suc)
  with concat_split_at [OF len]
  show "concat (rowCells cells j) =
        concat (take i (rowCells cells j)) @ shown cells i j @ concat (drop (Suc i) (rowCells cells j))"
    by simp
  from i show sum: "displayColumn cells i j = (\<Sum>k<i. length (shown cells k j))"
    by (intro displayColumn_sum) simp
  show "displayColumn cells i j = i" if "\<forall>k < i. length (shown cells k j) = 1"
    using that sum by simp
  from i show "(\<forall>i' \<le> i. displayColumn cells i' j = i') \<longleftrightarrow> (\<forall>k < i. length (shown cells k j) = 1)"
    by (intro displayColumn_aligned_iff) simp
qed

theorem C10_strings_not_characters_witness:
  "fst (parseCharacterGridFromDoc (([''x'', ''c'', ''y''] # [] @ [''0'', '' '', ''0''] # []) # [])) =
     [\<lparr>X = 0, Y = 0, C = []\<rparr>] \<and>
   [''A'', ''  B''] ! (unat (maxY [\<lparr>X = 0, Y = 1, C = ''A''\<rparr>, \<lparr>X = 2, Y = 0, C = ''B''\<rparr>]) - 0) =
     TrimRight (concat (rowCells [\<lparr>X = 0, Y = 1, C = ''A''\<rparr>, \<lparr>X = 2, Y = 0, C = ''B''\<rparr>] 0)) '' '' \<and>
   displayColumn [\<lparr>X = 0, Y = 1, C = ''A''\<rparr>, \<lparr>X = 2, Y = 0, C = ''B''\<rparr>] 2 0 = 2"
proof -
  let ?r = "[''0'', '' '', ''0'']" and ?h = "[''x'', ''c'', ''y'']"
  let ?cells = "[\<lparr>X = 0, Y = 1, C = ''A''\<rparr>, \<lparr>X = 2, Y = 0, C = ''B''\<rparr>]"
  note inst = C10_strings_not_characters [where r = ?r and x = 0 and y = 0 and h = ?h
      and pre = "[]" and post = "[]" and ts = "[]" and cells = ?cells and ls = "[''A'', ''  B'']"
      and i = 2 and j = 0]
  have len: "3 \<le> length ?r"
    by simp
  have x: "Atoi (TrimSpace (?r ! 0)) = Some 0" and y: "Atoi (TrimSpace (?r ! 2)) = Some 0"
    and c: "TrimSpace (?r ! 1) = []"
    by code_simp+
  have e: "fst (parseCharacterGridFromDoc ((?h # []) # [])) = []"
    by code_simp
  have run: "renderGridFromCells ?cells = ([''A'', ''  B''], None)"
    by code_simp
  have i: "2 \<le> unat (maxX ?cells)" and j: "0 \<le> unat (maxY ?cells)"
    by code_simp+
  have w: "\<forall>k < 2. length (shown ?cells k 0) = 1"
  proof (intro allI impI)
    fix k :: nat assume "k < 2"
    then have "k = 0 \<or> k = 1"
      by auto
    moreover have "length (shown ?cells 0 0) = 1" "length (shown ?cells 1 0) = 1"
      by code_simp+
    ultimately show "length (shown ?cells k 0) = 1"
      by auto
  qed
  from inst len x y c e have "fst (parseCharacterGridFromDoc ((?h # [] @ ?r # []) # [])) =
      [\<lparr>X = 0, Y = 0, C = []\<rparr>]"
    by simp
  moreover from inst run j have "[''A'', ''  B''] ! (unat (maxY ?cells) - 0) =
      TrimRight (concat (rowCells ?cells 0)) '' ''"
    by blast
  moreover from inst i w have "displayColumn ?cells 2 0 = 2"
    by blast
  ultimately show ?thesis
    by blast
qed

text \<open>
  The claim as it was stated, that a character is at display column \<open>x\<close> only when every
  payload to its left has length exactly 1, fails where the lengths to the left make up
  for each other. The rows \<open>(0, " ", 0)\<close>, \<open>(1, "AB", 0)\<close>, \<open>(2, "C", 0)\<close> are extracted as
  the payloads \<open>""\<close>, \<open>"AB"\<close> and \<open>"C"\<close> and printed as the line \<open>"ABC"\<close>: the \<open>C\<close> of grid
  column 2 is at display column 2, and the payloads to its left have lengths 0 and 2.
\<close>

theorem C10_counterexample:
  "fst (parseCharacterGridFromDoc
         [[[''x'', ''c'', ''y''], [''0'', '' '', ''0''], [''1'', ''AB'', ''0''], [''2'', ''C'', ''0'']]]) =
     [\<lparr>X = 0, Y = 0, C = []\<rparr>, \<lparr>X = 1, Y = 0, C = ''AB''\<rparr>, \<lparr>X = 2, Y = 0, C = ''C''\<rparr>] \<and>
   renderGridFromCells [\<lparr>X = 0, Y = 0, C = []\<rparr>, \<lparr>X = 1, Y = 0, C = ''AB''\<rparr>, \<lparr>X = 2, Y = 0, C = ''C''\<rparr>] =
     ([''ABC''], None) \<and>
   shown [\<lparr>X = 0, Y = 0, C = []\<rparr>, \<lparr>X = 1, Y = 0, C = ''AB''\<rparr>, \<lparr>X = 2, Y = 0, C = ''C''\<rparr>] 2 0 = ''C'' \<and>
   displayColumn [\<lparr>X = 0, Y = 0, C = []\<rparr>, \<lparr>X = 1, Y = 0, C = ''AB''\<rparr>, \<lparr>X = 2, Y = 0, C = ''C''\<rparr>] 2 0 = 2 \<and>
   ''ABC'' ! 2 = CHR ''C'' \<and>
   length (shown [\<lparr>X = 0, Y = 0, C = []\<rparr>, \<lparr>X = 1, Y = 0, C = ''AB''\<rparr>, \<lparr>X = 2, Y = 0, C = ''C''\<rparr>] 0 0) = 0 \<and>
   length (shown [\<lparr>X = 0, Y = 0, C = []\<rparr>, \<lparr>X = 1, Y = 0, C = ''AB''\<rparr>, \<lparr>X = 2, Y = 0, C = ''C''\<rparr>] 1 0) = 2"
  by code_simp

end
